theory Spec2Isabelle
  imports Main "HOL-Library.Word"
begin

section \<open>Python strings\<close>

text \<open>
  Asset names, mod names and the lines of a key-value document are Python \<open>str\<close> values.
  They are modelled as Isabelle strings, a character being a code point below 256.
  The character classes are those of Python on that range: \<open>str.isspace\<close>,
  \<open>str.lower\<close> and \<open>str.isnumeric\<close>.
\<close>

definition isspace :: "char \<Rightarrow> bool" where
  "isspace c = (let n = (of_char c :: nat) in
     (9 \<le> n \<and> n \<le> 13) \<or> (28 \<le> n \<and> n \<le> 32) \<or> n = 133 \<or> n = 160)"

definition chr_lower :: "char \<Rightarrow> char" where
  "chr_lower c = (let n = (of_char c :: nat) in
     if (65 \<le> n \<and> n \<le> 90) \<or> (192 \<le> n \<and> n \<le> 214) \<or> (216 \<le> n \<and> n \<le> 222)
     then char_of (n + 32) else c)"

definition chr_isnumeric :: "char \<Rightarrow> bool" where
  "chr_isnumeric c = (let n = (of_char c :: nat) in
     (48 \<le> n \<and> n \<le> 57) \<or> n = 178 \<or> n = 179 \<or> n = 185 \<or> (188 \<le> n \<and> n \<le> 190))"

text \<open>\<open>s.lower()\<close>\<close>

definition str_lower :: "string \<Rightarrow> string" where
  "str_lower s = map chr_lower s"

text \<open>\<open>s.isnumeric()\<close>: false on the empty string.\<close>

definition str_isnumeric :: "string \<Rightarrow> bool" where
  "str_isnumeric s = (s \<noteq> [] \<and> list_all chr_isnumeric s)"

text \<open>\<open>s.lstrip(chars)\<close>, \<open>s.rstrip(chars)\<close> and \<open>s.strip(chars)\<close>, the set of
  characters given as a predicate; \<open>s.strip()\<close> is \<open>strip_with isspace\<close>.\<close>

definition lstrip_with :: "(char \<Rightarrow> bool) \<Rightarrow> string \<Rightarrow> string" where
  "lstrip_with P s = dropWhile P s"

definition rstrip_with :: "(char \<Rightarrow> bool) \<Rightarrow> string \<Rightarrow> string" where
  "rstrip_with P s = rev (dropWhile P (rev s))"

definition strip_with :: "(char \<Rightarrow> bool) \<Rightarrow> string \<Rightarrow> string" where
  "strip_with P s = rstrip_with P (lstrip_with P s)"

definition str_strip :: "string \<Rightarrow> string" where
  "str_strip s = strip_with isspace s"

definition str_strip_chr :: "char \<Rightarrow> string \<Rightarrow> string" where
  "str_strip_chr c s = strip_with (\<lambda>x. x = c) s"

text \<open>\<open>s.replace(old, new)\<close> for a one-character \<open>old\<close>.\<close>

definition str_replace :: "char \<Rightarrow> string \<Rightarrow> string \<Rightarrow> string" where
  "str_replace old new s = concat (map (\<lambda>c. if c = old then new else [c]) s)"

text \<open>\<open>s.split(sep)\<close> for a one-character separator: never the empty list.
  \<open>cur\<close> holds the characters of the field being read, last one first.\<close>

fun split_from :: "char \<Rightarrow> string \<Rightarrow> string \<Rightarrow> string list" where
  "split_from sep cur [] = [rev cur]"
| "split_from sep cur (c # cs) =
     (if c = sep then rev cur # split_from sep [] cs else split_from sep (c # cur) cs)"

definition str_split :: "char \<Rightarrow> string \<Rightarrow> string list" where
  "str_split sep s = split_from sep [] s"

text \<open>\<open>sep.join(parts)\<close>\<close>

fun str_join :: "char \<Rightarrow> string list \<Rightarrow> string" where
  "str_join sep [] = []"
| "str_join sep [p] = p"
| "str_join sep (p # q # ps) = p @ sep # str_join sep (q # ps)"

text \<open>\<open>s.startswith(prefix)\<close>\<close>

definition startswith :: "string \<Rightarrow> string \<Rightarrow> bool" where
  "startswith s p = (take (length p) s = p)"

section \<open>Errors\<close>

text \<open>Every exception the modelled functions raise is a value. A failed
  \<open>assert cond, DecompressionError(msg)\<close> raises \<open>AssertionError\<close> with the
  \<open>DecompressionError\<close> instance as its argument; the instance itself is made and never
  raised. \<open>StreamError\<close> is a read past the end of a \<open>MemoryStream\<close>.\<close>

datatype error =
    ModNotFound string
  | AssetNotFound string
  | KeyError string
  | TypeError
  | IndexError
  | ValueError string
  | DecompressionError string
  | AssertionError error
  | StreamError
  | ZlibError
  | UnicodeDecodeError
  | AssetLoadException string

section \<open>Mod resolvers\<close>

text \<open>A Python \<open>dict\<close> built from a sequence of pairs: a later pair overwrites an earlier
  one with the same key.\<close>

definition dict_of :: "('k \<times> 'v) list \<Rightarrow> ('k \<rightharpoonup> 'v)" where
  "dict_of kvs = map_of (rev kvs)"

text \<open>The record \<open>readModData\<close> keeps for an installed mod; \<open>data['id']\<close>,
  \<open>data['name']\<close> and the \<open>official\<close> flag are what the resolver uses.\<close>

record moddata =
  data_id :: string
  data_name :: string
  data_official :: bool

text \<open>The three resolvers, each with the two tables it holds after \<open>initialise\<close>:
  \<open>mods_id_to_names\<close> and \<open>mods_names_to_ids\<close>; \<open>dataCache\<close> and \<open>modNameToIds\<close>;
  \<open>namesToIds\<close> and \<open>idsToNames\<close>.\<close>

datatype resolver =
    IniModResolver "string \<rightharpoonup> string" "string \<rightharpoonup> string"
  | ManagedModResolver "string \<rightharpoonup> moddata" "string \<rightharpoonup> string"
  | FixedModResolver "string \<rightharpoonup> string" "string \<rightharpoonup> string"

text \<open>\<open>IniModResolver.initialise\<close>: \<open>ids\<close> is the \<open>[ids]\<close> section of the ini file,
  as (id, name) items.\<close>

definition IniModResolver_initialise :: "(string \<times> string) list \<Rightarrow> resolver" where
  "IniModResolver_initialise ids =
     IniModResolver (dict_of ids) (dict_of (map (\<lambda>(i, n). (str_lower n, i)) ids))"

text \<open>\<open>ManagedModResolver.initialise\<close>: \<open>installed\<close> is the items of the dictionary
  \<open>findInstalledMods\<close> returns, \<open>official\<close> the pairs
  \<open>(modid, official_mods.tag_from_id(modid))\<close> for \<open>modid\<close> in \<open>official_mods.ids()\<close>.\<close>

fun add_official ::
  "(string \<rightharpoonup> moddata) \<times> (string \<rightharpoonup> string) \<Rightarrow> (string \<times> string) list \<Rightarrow>
   (string \<rightharpoonup> moddata) \<times> (string \<rightharpoonup> string)" where
  "add_official (dataCache, modNameToIds) [] = (dataCache, modNameToIds)"
| "add_official (dataCache, modNameToIds) ((modid, tag) # rest) =
     add_official
       (dataCache(modid \<mapsto> \<lparr>data_id = modid, data_name = tag, data_official = True\<rparr>),
        modNameToIds(str_lower tag \<mapsto> modid)) rest"

definition ManagedModResolver_initialise ::
  "(string \<times> moddata) list \<Rightarrow> (string \<times> string) list \<Rightarrow> resolver" where
  "ManagedModResolver_initialise installed official =
     (let dataCache = dict_of installed;
          modNameToIds = dict_of (map (\<lambda>(k, d). (str_lower (data_name d), data_id d)) installed)
      in case add_official (dataCache, modNameToIds) official of
           (dc, n2i) \<Rightarrow> ManagedModResolver dc n2i)"

text \<open>\<open>FixedModResolver.__init__\<close>: \<open>items\<close> is the items of the \<open>namesToIds\<close>
  dictionary the caller supplies.\<close>

definition FixedModResolver_init :: "(string \<times> string) list \<Rightarrow> resolver" where
  "FixedModResolver_init items =
     FixedModResolver (dict_of items) (dict_of (map (\<lambda>(k, v). (v, k)) items))"

text \<open>\<open>get_name_from_id\<close> and \<open>get_id_from_name\<close>. The result is a Python value that is a
  \<open>str\<close> or \<open>None\<close>, hence a \<open>string option\<close>; an exception is \<open>Inl\<close>.\<close>

fun get_name_from_id :: "resolver \<Rightarrow> string \<Rightarrow> error + string option" where
  "get_name_from_id (IniModResolver mods_id_to_names mods_names_to_ids) modid =
     Inr (mods_id_to_names modid)"
| "get_name_from_id (ManagedModResolver dataCache modNameToIds) modid =
     (case dataCache modid of
        None \<Rightarrow> Inr (Some modid)
      | Some d \<Rightarrow> Inr (Some (data_name d)))"
| "get_name_from_id (FixedModResolver namesToIds idsToNames) modid =
     (case idsToNames modid of
        None \<Rightarrow> Inl (KeyError modid)
      | Some n \<Rightarrow> Inr (Some n))"

fun get_id_from_name :: "resolver \<Rightarrow> string \<Rightarrow> error + string option" where
  "get_id_from_name (IniModResolver mods_id_to_names mods_names_to_ids) n =
     Inr (mods_names_to_ids (str_lower n))"
| "get_id_from_name (ManagedModResolver dataCache modNameToIds) n =
     (case modNameToIds (str_lower n) of
        None \<Rightarrow> Inl (ModNotFound n)
      | Some modid \<Rightarrow> if modid = [] then Inl (ModNotFound n) else Inr (Some modid))"
| "get_id_from_name (FixedModResolver namesToIds idsToNames) n =
     (case namesToIds n of
        None \<Rightarrow> Inl (KeyError n)
      | Some modid \<Rightarrow> Inr (Some modid))"

section \<open>Canonical asset names\<close>

text \<open>The last two steps of \<open>clean_asset_name\<close>: a leading \<open>Content\<close> becomes
  \<open>Game\<close>, and the parts are joined behind a slash.\<close>

definition rejoin_parts :: "string list \<Rightarrow> string" where
  "rejoin_parts parts =
     CHR ''/'' # str_join (CHR ''/'')
       (if parts \<noteq> [] \<and> str_lower (parts ! 0) = ''content'' then parts[0 := ''Game''] else parts)"

text \<open>The first steps of \<open>clean_asset_name\<close>, up to the value of \<open>parts\<close> before the
  mod name is looked up: the class name is dropped, the name is stripped of white space,
  then of slashes, then of backslashes, the backslashes left become slashes, and the name
  is split at the slashes.\<close>

definition name_parts :: "string \<Rightarrow> string list" where
  "name_parts n =
     (let n1 = (if CHR ''.'' \<in> set n then takeWhile (\<lambda>c. c \<noteq> CHR ''.'') n else n);
          n2 = str_replace (CHR 0x5C) ''/''
                 (str_strip_chr (CHR 0x5C) (str_strip_chr (CHR ''/'') (str_strip n1)))
      in str_split (CHR ''/'') n2)"

text \<open>\<open>AssetLoader.clean_asset_name\<close>. When the resolver returns \<open>None\<close> for the mod id,
  \<open>parts[2]\<close> is \<open>None\<close> and the final \<open>'/'.join(parts)\<close> raises \<open>TypeError\<close>.\<close>

definition clean_asset_name :: "resolver \<Rightarrow> string \<Rightarrow> error + string" where
  "clean_asset_name modresolver n =
     (let parts = name_parts n
      in if length parts > 2 \<and> str_lower (parts ! 1) = ''mods'' \<and> str_isnumeric (parts ! 2)
         then (case get_name_from_id modresolver (parts ! 2) of
                 Inl e \<Rightarrow> Inl e
               | Inr None \<Rightarrow> Inl TypeError
               | Inr (Some mod_name) \<Rightarrow> Inr (rejoin_parts (parts[2 := mod_name])))
         else Inr (rejoin_parts parts))"

text \<open>\<open>os.path.join\<close> of \<open>posixpath\<close>: a component that starts with a slash
  replaces what was joined before it.\<close>

definition path_join1 :: "string \<Rightarrow> string \<Rightarrow> string" where
  "path_join1 path b =
     (if startswith b ''/'' then b
      else if path = [] \<or> last path = CHR ''/'' then path @ b
      else path @ CHR ''/'' # b)"

definition os_path_join :: "string \<Rightarrow> string list \<Rightarrow> string" where
  "os_path_join a ps = foldl path_join1 a ps"

text \<open>\<open>AssetLoader.convert_asset_name_to_path\<close>; a resolver that returns \<open>None\<close> for
  the mod name makes \<open>os.path.join\<close> raise \<open>TypeError\<close>.\<close>

definition convert_asset_name_to_path ::
  "resolver \<Rightarrow> string \<Rightarrow> string \<Rightarrow> bool \<Rightarrow> string \<Rightarrow> error + string" where
  "convert_asset_name_to_path modresolver asset_path n partial ext =
     (case clean_asset_name modresolver n of
        Inl e \<Rightarrow> Inl e
      | Inr c \<Rightarrow>
         (let parts = str_split (CHR ''/'') (str_strip_chr (CHR ''/'') c);
              finish = (\<lambda>ps.
                let ps' = (if ps \<noteq> [] \<and> str_lower (ps ! 0) = ''game''
                           then ps[0 := ''Content''] else ps);
                    fullname = os_path_join asset_path ps'
                in if partial then fullname else fullname @ ext)
          in if length parts > 2 \<and> str_lower (parts ! 1) = ''mods''
                \<and> \<not> str_isnumeric (parts ! 2)
             then (case get_id_from_name modresolver (parts ! 2) of
                     Inl e \<Rightarrow> Inl e
                   | Inr None \<Rightarrow> Inl TypeError
                   | Inr (Some modid) \<Rightarrow> Inr (finish (parts[2 := modid])))
             else Inr (finish parts)))"

section \<open>The asset cache\<close>

text \<open>\<open>DictCacheManager\<close>: the dictionary \<open>self.cache\<close> and its four operations.
  \<open>del self.cache[name]\<close> raises \<open>KeyError\<close> for a missing key.\<close>

definition cache_lookup :: "(string \<rightharpoonup> 'a) \<Rightarrow> string \<Rightarrow> 'a option" where
  "cache_lookup c k = c k"

definition cache_add :: "(string \<rightharpoonup> 'a) \<Rightarrow> string \<Rightarrow> 'a \<Rightarrow> (string \<rightharpoonup> 'a)" where
  "cache_add c k a = c(k \<mapsto> a)"

definition cache_remove :: "(string \<rightharpoonup> 'a) \<Rightarrow> string \<Rightarrow> error + (string \<rightharpoonup> 'a)" where
  "cache_remove c k = (case c k of None \<Rightarrow> Inl (KeyError k) | Some a \<Rightarrow> Inr (c(k := None)))"

definition cache_wipe :: "(string \<rightharpoonup> 'a) \<Rightarrow> string \<Rightarrow> (string \<rightharpoonup> 'a)" where
  "cache_wipe c prefix =
     (if prefix = [] then Map.empty
      else (\<lambda>k. if startswith k prefix then None else c k))"

section \<open>The asset loader\<close>

type_synonym byte = "8 word"

record export =
  export_name :: string
  klass_value :: string

text \<open>A \<open>UAsset\<close> object. \<open>ident\<close> is the identity of the Python object: every
  \<open>UAsset(...)\<close> call makes an object with a new one. \<open>contents\<close> stands for the
  tables that \<open>deserialise\<close> fills and \<open>link\<close> rewrites.\<close>

record 'd uasset =
  ident :: nat
  assetname :: string
  name :: string
  contents :: 'd
  default_export :: "export option"
  default_class :: "string option"

text \<open>What an \<open>AssetLoader\<close> is built from: the resolver, the asset root and the
  files below it (a file name to the bytes of the file). \<open>UAsset.deserialise\<close>,
  \<open>UAsset.link\<close> and the export table of an asset belong to the \<open>ue.asset\<close> module;
  they are parameters here, and each of the first two may raise.\<close>

record 'd loader =
  modresolver :: resolver
  asset_path :: string
  files :: "string \<rightharpoonup> byte list"
  deserialise :: "byte list \<Rightarrow> error + 'd"
  link :: "'d \<Rightarrow> error + 'd"
  exports :: "'d \<Rightarrow> export list"

text \<open>What the loader's calls change: the cache, the files read by
  \<open>load_file_into_memory\<close> (in order), and the next object identity.\<close>

record 'd loader_state =
  cache :: "string \<rightharpoonup> 'd uasset"
  reads :: "string list"
  next_ident :: nat

definition initial_state :: "'d loader_state" where
  "initial_state = \<lparr>cache = Map.empty, reads = [], next_ident = 0\<rparr>"

text \<open>The loop of \<open>load_raw_asset\<close> over the extensions: the first file that exists is
  read.\<close>

fun find_raw :: "'d loader \<Rightarrow> string \<Rightarrow> string list \<Rightarrow> error + (string \<times> byte list) option" where
  "find_raw L n [] = Inr None"
| "find_raw L n (ext # exts) =
     (case convert_asset_name_to_path (modresolver L) (asset_path L) n False ext of
        Inl e \<Rightarrow> Inl e
      | Inr filename \<Rightarrow>
         (case files L filename of
            Some mem \<Rightarrow> Inr (Some (filename, mem))
          | None \<Rightarrow> find_raw L n exts))"

definition load_raw_asset ::
  "'d loader \<Rightarrow> 'd loader_state \<Rightarrow> string \<Rightarrow> (error + byte list) \<times> 'd loader_state" where
  "load_raw_asset L s n =
     (case clean_asset_name (modresolver L) n of
        Inl e \<Rightarrow> (Inl e, s)
      | Inr c \<Rightarrow>
         (case find_raw L c [''.uasset'', ''.umap''] of
            Inl e \<Rightarrow> (Inl e, s)
          | Inr None \<Rightarrow> (Inl (AssetNotFound c), s)
          | Inr (Some (filename, mem)) \<Rightarrow> (Inr mem, s\<lparr>reads := reads s @ [filename]\<rparr>)))"

text \<open>\<open>AssetLoader._load_asset\<close>. The only \<open>cache.add\<close> is its last step.\<close>

definition load_asset ::
  "'d loader \<Rightarrow> 'd loader_state \<Rightarrow> string \<Rightarrow> bool \<Rightarrow> (error + 'd uasset) \<times> 'd loader_state" where
  "load_asset L s an doNotLink =
     (case load_raw_asset L s an of
        (Inl e, s1) \<Rightarrow> (Inl e, s1)
      | (Inr mem, s1) \<Rightarrow>
         (let s2 = s1\<lparr>next_ident := Suc (next_ident s1)\<rparr>
          in case deserialise L mem of
               Inl e \<Rightarrow> (Inl e, s2)
             | Inr d \<Rightarrow>
                (let asset = \<lparr>ident = next_ident s1, assetname = an,
                               name = last (str_split (CHR ''/'') an), contents = d,
                               default_export = None, default_class = None\<rparr>
                 in if doNotLink then (Inr asset, s2)
                    else (case link L d of
                            Inl e \<Rightarrow> (Inl e, s2)
                          | Inr d' \<Rightarrow>
                             (let exps = filter (\<lambda>x. startswith (export_name x) ''Default__'')
                                           (exports L d');
                                  de = (case exps of [] \<Rightarrow> None | x # _ \<Rightarrow> Some x);
                                  asset' = asset\<lparr>contents := d', default_export := de,
                                                  default_class := map_option klass_value de\<rparr>
                              in (Inr asset', s2\<lparr>cache := cache_add (cache s2) an asset'\<rparr>))))))"

text \<open>\<open>AssetLoader.__getitem__\<close>: \<open>self.cache.lookup(assetname) or
  self._load_asset(assetname)\<close>. A \<open>UAsset\<close> is an object without \<open>__bool__\<close> or
  \<open>__len__\<close>, so a cached asset is true and \<open>or\<close> returns it.\<close>

definition getitem ::
  "'d loader \<Rightarrow> 'd loader_state \<Rightarrow> string \<Rightarrow> (error + 'd uasset) \<times> 'd loader_state" where
  "getitem L s an =
     (case clean_asset_name (modresolver L) an of
        Inl e \<Rightarrow> (Inl e, s)
      | Inr c \<Rightarrow>
         (case cache_lookup (cache s) c of
            Some asset \<Rightarrow> (Inr asset, s)
          | None \<Rightarrow> load_asset L s c False))"

text \<open>\<open>AssetLoader.__delitem__\<close>\<close>

definition delitem ::
  "'d loader \<Rightarrow> 'd loader_state \<Rightarrow> string \<Rightarrow> (error + unit) \<times> 'd loader_state" where
  "delitem L s an =
     (case clean_asset_name (modresolver L) an of
        Inl e \<Rightarrow> (Inl e, s)
      | Inr c \<Rightarrow>
         (case cache_remove (cache s) c of
            Inl e \<Rightarrow> (Inl e, s)
          | Inr c' \<Rightarrow> (Inr (), s\<lparr>cache := c'\<rparr>)))"

text \<open>\<open>AssetLoader.partially_load_asset\<close>\<close>

definition partially_load_asset ::
  "'d loader \<Rightarrow> 'd loader_state \<Rightarrow> string \<Rightarrow> (error + 'd uasset) \<times> 'd loader_state" where
  "partially_load_asset L s an = load_asset L s an True"

text \<open>\<open>AssetLoader.wipe_cache\<close> and \<open>AssetLoader.wipe_cache_with_prefix\<close>\<close>

definition wipe_cache :: "'d loader_state \<Rightarrow> 'd loader_state" where
  "wipe_cache s = s\<lparr>cache := cache_wipe (cache s) []\<rparr>"

definition wipe_cache_with_prefix :: "'d loader_state \<Rightarrow> string \<Rightarrow> 'd loader_state" where
  "wipe_cache_with_prefix s prefix = s\<lparr>cache := cache_wipe (cache s) prefix\<rparr>"

text \<open>The states a loader can be in: it starts with an empty cache, and its state changes
  through the calls above only.\<close>

inductive reachable :: "'d loader \<Rightarrow> 'd loader_state \<Rightarrow> bool" for L :: "'d loader" where
  r_init: "reachable L initial_state"
| r_getitem: "reachable L s \<Longrightarrow> getitem L s an = (r, s') \<Longrightarrow> reachable L s'"
| r_delitem: "reachable L s \<Longrightarrow> delitem L s an = (u, s') \<Longrightarrow> reachable L s'"
| r_partial: "reachable L s \<Longrightarrow> partially_load_asset L s an = (r, s') \<Longrightarrow> reachable L s'"
| r_wipe: "reachable L s \<Longrightarrow> reachable L (wipe_cache s)"
| r_wipe_prefix: "reachable L s \<Longrightarrow> reachable L (wipe_cache_with_prefix s prefix)"

text \<open>An asset as a full load leaves it: its contents are the result of \<open>link\<close> on
  deserialised tables, and its default export is the first export whose name starts with
  \<open>Default__\<close>, if there is one.\<close>

definition fully_loaded :: "'d loader \<Rightarrow> 'd uasset \<Rightarrow> bool" where
  "fully_loaded L a =
     ((\<exists>mem d. deserialise L mem = Inr d \<and> link L d = Inr (contents a)) \<and>
      default_export a =
        (case filter (\<lambda>x. startswith (export_name x) ''Default__'') (exports L (contents a)) of
           [] \<Rightarrow> None | x # _ \<Rightarrow> Some x) \<and>
      default_class a = map_option klass_value (default_export a))"

section \<open>Byte streams\<close>

text \<open>Modelled from the spec: the class \<open>MemoryStream\<close> of \<open>ue.stream\<close> is not among
  the sources. A stream is a buffer and a read offset. Integers are fixed-width, unsigned
  and little-endian, and a read takes exactly the bytes asked for: one that would pass the
  end of the buffer raises and leaves the offset where it was.\<close>

record memstream =
  mem :: "byte list"
  offset :: nat

definition loadFileAsStream :: "byte list \<Rightarrow> memstream" where
  "loadFileAsStream bytes = \<lparr>mem = bytes, offset = 0\<rparr>"

definition readBytes :: "memstream \<Rightarrow> nat \<Rightarrow> error + (byte list \<times> memstream)" where
  "readBytes f count =
     (if offset f + count \<le> length (mem f)
      then Inr (take count (drop (offset f) (mem f)), f\<lparr>offset := offset f + count\<rparr>)
      else Inl StreamError)"

definition le_uint :: "byte list \<Rightarrow> nat" where
  "le_uint bs = foldr (\<lambda>b acc. unat b + 256 * acc) bs 0"

definition readUInt32 :: "memstream \<Rightarrow> error + (int \<times> memstream)" where
  "readUInt32 f =
     (case readBytes f 4 of Inl e \<Rightarrow> Inl e | Inr (bs, f') \<Rightarrow> Inr (int (le_uint bs), f'))"

definition readUInt64 :: "memstream \<Rightarrow> error + (int \<times> memstream)" where
  "readUInt64 f =
     (case readBytes f 8 of Inl e \<Rightarrow> Inl e | Inr (bs, f') \<Rightarrow> Inr (int (le_uint bs), f'))"

section \<open>The container decoder\<close>

text \<open>The first loop of \<open>unpackModFile\<close>: descriptors are read while the sizes found
  are below the total of the header. The stream is returned with the result, so that
  the place where the function stops is part of it.\<close>

function read_chunk_sizes ::
  "int \<Rightarrow> memstream \<Rightarrow> (int \<times> int) list \<Rightarrow> int \<Rightarrow>
   (error + ((int \<times> int) list \<times> int)) \<times> memstream" where
  "read_chunk_sizes sizeUnpacked f chunkSizes sizeFound =
     (if sizeFound < sizeUnpacked then
        (case readUInt64 f of
           Inl e \<Rightarrow> (Inl e, f)
         | Inr (chunkSizeCompressed, f1) \<Rightarrow>
            (case readUInt64 f1 of
               Inl e \<Rightarrow> (Inl e, f1)
             | Inr (chunkSizeUncompressed, f2) \<Rightarrow>
                read_chunk_sizes sizeUnpacked f2
                  (chunkSizes @ [(chunkSizeCompressed, chunkSizeUncompressed)])
                  (sizeFound + chunkSizeUncompressed)))
      else (Inr (chunkSizes, sizeFound), f))"
  by pat_completeness auto
termination
  by (relation "measure (\<lambda>(t, f, cs, n). Suc (length (mem f)) - offset f)")
     (auto simp: readUInt64_def readBytes_def split: if_splits)

declare read_chunk_sizes.simps [simp del]

text \<open>The second loop: \<open>n\<close> is \<open>len(chunkSizes)\<close>, \<open>i\<close> the index of the chunk, and
  \<open>out\<close> what has been written to the destination. \<open>zlib.decompress\<close> is a parameter
  and may raise.\<close>

fun write_chunks ::
  "(byte list \<Rightarrow> error + byte list) \<Rightarrow> int \<Rightarrow> nat \<Rightarrow> nat \<Rightarrow> (int \<times> int) list \<Rightarrow>
   memstream \<Rightarrow> byte list \<Rightarrow> (error + unit) \<times> memstream \<times> byte list" where
  "write_chunks decompress sizeUnpackedChunk n i [] f out = (Inr (), f, out)"
| "write_chunks decompress sizeUnpackedChunk n i ((csCompressed, csUncompressed) # rest) f out =
     (case readBytes f (nat csCompressed) of
        Inl e \<Rightarrow> (Inl e, f, out)
      | Inr (chunkData, f1) \<Rightarrow>
         (case decompress chunkData of
            Inl e \<Rightarrow> (Inl e, f1, out)
          | Inr uncompressedChunkData \<Rightarrow>
             if int (length uncompressedChunkData) \<noteq> csUncompressed
             then (Inl (AssertionError (DecompressionError
                     ''Decompression of downloaded mod chunk failed verification'')), f1, out)
             else if \<not> (int (length uncompressedChunkData) = sizeUnpackedChunk \<or> i + 1 = n)
             then (Inl (AssertionError (DecompressionError
                     ''Chunk of downloaded mod is not the expected size'')), f1, out)
             else write_chunks decompress sizeUnpackedChunk n (i + 1) rest f1
                    (out @ uncompressedChunkData)))"

text \<open>\<open>unpackModFile\<close>, from the stream of the source file on. \<open>dst\<close> is the content
  of the destination file (\<open>None\<close>: there is no such file); \<open>open(dst, 'wb')\<close> makes it
  empty. The result is the outcome, the stream where the function stopped, and the
  destination file.\<close>

definition unpackModFile ::
  "(byte list \<Rightarrow> error + byte list) \<Rightarrow> memstream \<Rightarrow> byte list option \<Rightarrow>
   (error + unit) \<times> memstream \<times> byte list option" where
  "unpackModFile decompress f dst =
     (case readUInt64 f of
        Inl e \<Rightarrow> (Inl e, f, dst)
      | Inr (token, f1) \<Rightarrow>
     (case readUInt64 f1 of
        Inl e \<Rightarrow> (Inl e, f1, dst)
      | Inr (sizeUnpackedChunk, f2) \<Rightarrow>
     (case readUInt64 f2 of
        Inl e \<Rightarrow> (Inl e, f2, dst)
      | Inr (sizePacked, f3) \<Rightarrow>
     (case readUInt64 f3 of
        Inl e \<Rightarrow> (Inl e, f3, dst)
      | Inr (sizeUnpacked, f4) \<Rightarrow>
         if token \<noteq> 0x9e2a83c1
         then (Inl (AssertionError (DecompressionError ''Invalid header in downloaded mod'')),
               f4, dst)
         else
          (case read_chunk_sizes sizeUnpacked f4 [] 0 of
             (Inl e, f5) \<Rightarrow> (Inl e, f5, dst)
           | (Inr (chunkSizes, sizeFound), f5) \<Rightarrow>
              if sizeFound \<noteq> sizeUnpacked
              then (Inl (AssertionError
                          (DecompressionError ''Invalid chunk sizes in downloaded mod'')),
                    f5, dst)
              else
               (case write_chunks decompress sizeUnpackedChunk (length chunkSizes) 0
                       chunkSizes f5 [] of
                  (r, f6, out) \<Rightarrow> (r, f6, Some out)))))))"

section \<open>The string reader\<close>

text \<open>\<open>readUnrealString\<close>; \<open>bytes.decode('utf8')\<close> is a parameter and may raise, and
  \<open>[:-1]\<close> drops the last character of what it returns.\<close>

definition readUnrealString ::
  "(byte list \<Rightarrow> error + 'c list) \<Rightarrow> memstream \<Rightarrow> (error + 'c list option) \<times> memstream" where
  "readUnrealString decode f =
     (case readUInt32 f of
        Inl e \<Rightarrow> (Inl e, f)
      | Inr (count, f1) \<Rightarrow>
         if count < 0 then (Inl (ValueError ''UTF16 string detected - add support here!''), f1)
         else if count = 0 then (Inr None, f1)
         else (case readBytes f1 (nat count) of
                 Inl e \<Rightarrow> (Inl e, f1)
               | Inr (data, f2) \<Rightarrow>
                  (case decode data of
                     Inl e \<Rightarrow> (Inl e, f2)
                   | Inr s \<Rightarrow> (Inr (Some (butlast s)), f2))))"

text \<open>A decoder for the examples: UTF-8 on bytes below 128, which is ASCII.\<close>

definition decode_ascii :: "byte list \<Rightarrow> error + string" where
  "decode_ascii bs =
     (if list_all (\<lambda>b. unat b < 128) bs then Inr (map (\<lambda>b. char_of (unat b)) bs)
      else Inl UnicodeDecodeError)"

section \<open>The key-value text parser\<close>

text \<open>\<open>s.splitlines()\<close>: a line ends at a line feed, a carriage return (with the line
  feed that follows it, if any), a vertical tab, a form feed, a file, group or record
  separator or a next-line character; a line break at the very end starts no new line.\<close>

definition is_linebreak :: "char \<Rightarrow> bool" where
  "is_linebreak c = (let n = (of_char c :: nat) in
     (10 \<le> n \<and> n \<le> 13) \<or> (28 \<le> n \<and> n \<le> 30) \<or> n = 133)"

fun splitlines_from :: "string \<Rightarrow> string \<Rightarrow> string list" where
  "splitlines_from cur [] = (if cur = [] then [] else [rev cur])"
| "splitlines_from cur [c] = (if is_linebreak c then [rev cur] else [rev (c # cur)])"
| "splitlines_from cur (c # d # cs) =
     (if c = CHR 0x0D \<and> d = CHR 0x0A then rev cur # splitlines_from [] cs
      else if is_linebreak c then rev cur # splitlines_from [] (d # cs)
      else splitlines_from (c # cur) (d # cs))"

definition str_splitlines :: "string \<Rightarrow> string list" where
  "str_splitlines s = splitlines_from [] s"

text \<open>\<open>s.split(None, 1)\<close>: at most two fields, the first one ending at the first run of
  white space.\<close>

definition str_split_ws1 :: "string \<Rightarrow> string list" where
  "str_split_ws1 s =
     (let s1 = dropWhile isspace s in
      if s1 = [] then []
      else (let w = takeWhile (\<lambda>c. \<not> isspace c) s1;
                r = dropWhile isspace (dropWhile (\<lambda>c. \<not> isspace c) s1)
            in if r = [] then [w] else [w, r]))"

text \<open>The parser's output: a value is a string or a dictionary, and a dictionary keeps the
  order in which its keys were first set.\<close>

datatype acf = Str string | Dict "(string \<times> acf) list"

text \<open>\<open>d[key] = value\<close>\<close>

fun dict_set :: "string \<Rightarrow> 'v \<Rightarrow> (string \<times> 'v) list \<Rightarrow> (string \<times> 'v) list" where
  "dict_set k v [] = [(k, v)]"
| "dict_set k v ((k', v') # kvs) =
     (if k = k' then (k, v) # kvs else (k', v') # dict_set k v kvs)"

text \<open>A change \<open>g\<close> made to the dictionary that a path of keys leads to:
  \<open>for i in path: current = current[i]\<close>, then the change to \<open>current\<close>. A missing key
  raises \<open>KeyError\<close>; indexing a string with a key, and assigning to an item of a string,
  raise \<open>TypeError\<close>.\<close>

fun update_at ::
  "string list \<Rightarrow> ((string \<times> acf) list \<Rightarrow> (string \<times> acf) list) \<Rightarrow> acf \<Rightarrow> error + acf" where
  "update_at [] g (Dict kvs) = Inr (Dict (g kvs))"
| "update_at [] g (Str v) = Inl TypeError"
| "update_at (i # path) g (Dict kvs) =
     (case map_of kvs i of
        None \<Rightarrow> Inl (KeyError i)
      | Some child \<Rightarrow>
         (case update_at path g child of
            Inl e \<Rightarrow> Inl e
          | Inr child' \<Rightarrow> Inr (Dict (dict_set i child' kvs))))"
| "update_at (i # path) g (Str v) = Inl TypeError"

text \<open>The variables of \<open>parseAcf\<close>. \<open>current_section\<close> is a reference to a dictionary
  inside the \<open>output\<close> dictionary (\<open>output_dict\<close> here); it is kept as the path of
  keys that leads to that dictionary, which is
  the value \<open>sections\<close> had when the section was opened. No step replaces a dictionary
  on that path without setting \<open>current_section\<close> anew, so the path always leads to the
  object the reference denotes.\<close>

record acf_state =
  output_dict :: acf
  current_section :: "string list"
  sections :: "string list"

text \<open>The body of the loop for one line that is not empty.\<close>

definition parse_line :: "acf_state \<Rightarrow> string \<Rightarrow> error + acf_state" where
  "parse_line st line0 =
     (let line = str_strip line0 in
      case str_split_ws1 line of
        [k, v] \<Rightarrow>
          (let key = lstrip_with isspace (str_replace (CHR 0x22) [] k);
               val = rstrip_with isspace (str_replace (CHR 0x22) [] v)
           in case update_at (current_section st) (dict_set key (Str val)) (output_dict st) of
                Inl e \<Rightarrow> Inl e
              | Inr out \<Rightarrow> Inr (st\<lparr>output_dict := out\<rparr>))
      | _ \<Rightarrow>
          if line = ''{'' then
            (if sections st = [] then Inl IndexError
             else (case update_at (butlast (sections st))
                          (dict_set (last (sections st)) (Dict [])) (output_dict st) of
                     Inl e \<Rightarrow> Inl e
                   | Inr out \<Rightarrow> Inr (st\<lparr>output_dict := out, current_section := sections st\<rparr>)))
          else if line = ''}'' then
            (if sections st = [] then Inl IndexError
             else Inr (st\<lparr>sections := butlast (sections st)\<rparr>))
          else Inr (st\<lparr>sections := sections st @ [str_replace (CHR 0x22) [] line]\<rparr>))"

text \<open>The loop stops at the first empty line.\<close>

fun parse_lines :: "acf_state \<Rightarrow> string list \<Rightarrow> error + acf_state" where
  "parse_lines st [] = Inr st"
| "parse_lines st (line # rest) =
     (if line = [] then Inr st
      else (case parse_line st line of
              Inl e \<Rightarrow> Inl e
            | Inr st' \<Rightarrow> parse_lines st' rest))"

definition parseAcf :: "string \<Rightarrow> error + acf" where
  "parseAcf dat =
     (case parse_lines \<lparr>output_dict = Dict [], current_section = [], sections = []\<rparr>
             (str_splitlines dat) of
        Inl e \<Rightarrow> Inl e
      | Inr st \<Rightarrow> Inr (output_dict st))"

text \<open>A document is given by its lines: each is ended by a line feed.\<close>

definition unlines :: "string list \<Rightarrow> string" where
  "unlines ls = concat (map (\<lambda>l. l @ [CHR 0x0A]) ls)"

definition quoted :: "string \<Rightarrow> string" where
  "quoted s = CHR 0x22 # s @ [CHR 0x22]"

section \<open>Registered names\<close>

text \<open>The (lower-case name, id) pairs that \<open>ManagedModResolver.initialise\<close> enters into
  \<open>modNameToIds\<close>, in the order in which it enters them.\<close>

definition managed_names :: "(string \<times> moddata) list \<Rightarrow> (string \<times> string) list \<Rightarrow> (string \<times> string) list" where
  "managed_names installed official =
     map (\<lambda>(k, d). (str_lower (data_name d), data_id d)) installed @
     map (\<lambda>(modid, tag). (str_lower tag, modid)) official"

section \<open>A small installation\<close>

text \<open>One installed mod, one official mod, and a loader over two files, one of which
  does not deserialise. \<open>example_state\<close> is the loader's state after the asset
  \<open>example_asset\<close> has been retrieved.\<close>

definition example_installed :: "(string \<times> moddata) list" where
  "example_installed =
     [(''731604991'', \<lparr>data_id = ''731604991'', data_name = ''StructuresPlus'', data_official = False\<rparr>)]"

definition example_official :: "(string \<times> string) list" where
  "example_official = [(''111111111'', ''PrimitivePlus'')]"

text \<open>An official mod whose tag is the name of the installed mod in another case.\<close>

definition colliding_official :: "(string \<times> string) list" where
  "colliding_official = [(''111111111'', ''STRUCTURESPLUS'')]"

definition example_loader :: "byte list loader" where
  "example_loader =
     \<lparr>modresolver = FixedModResolver_init [(''MyMod'', ''123'')],
      asset_path = ''.'',
      files = [''./Content/Core/Thing.uasset'' \<mapsto> [1, 2, 3], ''./Content/Core/Broken.uasset'' \<mapsto> []],
      deserialise = (\<lambda>bs. if bs = [] then Inl (AssetLoadException ''no tables'') else Inr bs),
      link = (\<lambda>d. Inr (rev d)),
      exports = (\<lambda>d. [\<lparr>export_name = ''Thing_C'', klass_value = ''BlueprintGeneratedClass''\<rparr>,
                        \<lparr>export_name = ''Default__Thing_C'', klass_value = ''Thing_C''\<rparr>])\<rparr>"

definition example_asset :: "byte list uasset" where
  "example_asset =
     \<lparr>ident = 0, assetname = ''/Game/Core/Thing'', name = ''Thing'', contents = [3, 2, 1],
      default_export = Some \<lparr>export_name = ''Default__Thing_C'', klass_value = ''Thing_C''\<rparr>,
      default_class = Some ''Thing_C''\<rparr>"

definition example_state :: "byte list loader_state" where
  "example_state =
     \<lparr>cache = [''/Game/Core/Thing'' \<mapsto> example_asset],
      reads = [''./Content/Core/Thing.uasset''], next_ident = 1\<rparr>"

section \<open>Three damaged containers\<close>

text \<open>A decompressor for the examples: a chunk is a zero byte followed by the data, as
  it is stored.\<close>

definition stored_decompress :: "byte list \<Rightarrow> error + byte list" where
  "stored_decompress bs =
     (case bs of [] \<Rightarrow> Inl ZlibError | b # rest \<Rightarrow> if b = 0 then Inr rest else Inl ZlibError)"

text \<open>Each container has a nominal chunk size of 2 and 3 bytes of data in two chunks.
  The first has a wrong magic token, the second two descriptors whose sizes sum to 4,
  and the third a second chunk that holds two bytes where its descriptor says one.\<close>

definition bad_magic :: "byte list" where
  "bad_magic =
     [0xC2, 0x83, 0x2A, 0x9E, 0, 0, 0, 0,  2, 0, 0, 0, 0, 0, 0, 0,
      5, 0, 0, 0, 0, 0, 0, 0,  3, 0, 0, 0, 0, 0, 0, 0,
      3, 0, 0, 0, 0, 0, 0, 0,  2, 0, 0, 0, 0, 0, 0, 0,
      2, 0, 0, 0, 0, 0, 0, 0,  1, 0, 0, 0, 0, 0, 0, 0,
      0, 1, 2,  0, 3]"

definition bad_sum :: "byte list" where
  "bad_sum =
     [0xC1, 0x83, 0x2A, 0x9E, 0, 0, 0, 0,  2, 0, 0, 0, 0, 0, 0, 0,
      6, 0, 0, 0, 0, 0, 0, 0,  3, 0, 0, 0, 0, 0, 0, 0,
      3, 0, 0, 0, 0, 0, 0, 0,  2, 0, 0, 0, 0, 0, 0, 0,
      3, 0, 0, 0, 0, 0, 0, 0,  2, 0, 0, 0, 0, 0, 0, 0,
      0, 1, 2,  0, 3, 4]"

definition bad_chunk :: "byte list" where
  "bad_chunk =
     [0xC1, 0x83, 0x2A, 0x9E, 0, 0, 0, 0,  2, 0, 0, 0, 0, 0, 0, 0,
      6, 0, 0, 0, 0, 0, 0, 0,  3, 0, 0, 0, 0, 0, 0, 0,
      3, 0, 0, 0, 0, 0, 0, 0,  2, 0, 0, 0, 0, 0, 0, 0,
      3, 0, 0, 0, 0, 0, 0, 0,  1, 0, 0, 0, 0, 0, 0, 0,
      0, 1, 2,  0, 3, 4]"

section \<open>Names in canonical form\<close>

text \<open>A name that \<open>clean_asset_name\<close> leaves as it is: a slash, then segments joined
  by slashes, without a full stop or a backslash; the first segment is not empty and is
  not \<open>Content\<close>, the name does not end in a slash or in white space, and a numeric
  mod segment is one the resolver \<open>R\<close> maps to itself. The name \<open>/\<close> is
  canonical.\<close>

definition canonical_name :: "resolver \<Rightarrow> string \<Rightarrow> bool" where
  "canonical_name R c =
     (case c of
        [] \<Rightarrow> False
      | x # rest \<Rightarrow>
          x = CHR ''/'' \<and> CHR ''.'' \<notin> set rest \<and> CHR 0x5C \<notin> set rest \<and>
          (rest = [] \<or>
             (hd rest \<noteq> CHR ''/'' \<and> last rest \<noteq> CHR ''/'' \<and> \<not> isspace (last rest))) \<and>
          (let parts = str_split (CHR ''/'') rest in
             str_lower (parts ! 0) \<noteq> ''content'' \<and>
             (if length parts > 2 \<and> str_lower (parts ! 1) = ''mods'' \<and> str_isnumeric (parts ! 2)
              then get_name_from_id R (parts ! 2) = Inr (Some (parts ! 2))
              else True)))"

text \<open>A raw name that cleans to a canonical one. Its first and its last part are not
  empty and the last does not end in white space (or the name has no part but an empty
  one); and if it has a mod id, the resolver \<open>R\<close> has an alias for it that is not empty,
  has no full stop, slash or backslash, does not end in white space, and, if numeric,
  is an id that \<open>R\<close> maps to itself.\<close>

definition well_formed_name :: "resolver \<Rightarrow> string \<Rightarrow> bool" where
  "well_formed_name R n =
     (let parts = name_parts n in
        (parts = [[]] \<or>
           (hd parts \<noteq> [] \<and> last parts \<noteq> [] \<and> \<not> isspace (last (last parts)))) \<and>
        (if length parts > 2 \<and> str_lower (parts ! 1) = ''mods'' \<and> str_isnumeric (parts ! 2)
         then (case get_name_from_id R (parts ! 2) of
                 Inr (Some a) \<Rightarrow>
                   a \<noteq> [] \<and> \<not> isspace (last a) \<and>
                   CHR ''.'' \<notin> set a \<and> CHR ''/'' \<notin> set a \<and> CHR 0x5C \<notin> set a \<and>
                   (if str_isnumeric a then get_name_from_id R a = Inr (Some a) else True)
               | _ \<Rightarrow> False)
         else True))"

text \<open>A raw name as a directory walk on Windows gives it, with its class name.\<close>

definition example_raw_name :: string where
  "example_raw_name = ''Content'' @ [CHR 0x5C] @ ''Mods'' @ [CHR 0x5C] @ ''123'' @ [CHR 0x5C] @ ''Thing.Thing_C''"

section \<open>A key-value document\<close>

text \<open>A section \<open>Root\<close> with a subsection \<open>Child\<close>; the entry \<open>A\<close> of
  \<open>Root\<close> comes after the closing brace of \<open>Child\<close>.\<close>

definition acf_doc :: string where
  "acf_doc = unlines
     [quoted ''Root'',
      ''{'',
      [CHR 0x09] @ quoted ''Child'',
      [CHR 0x09] @ ''{'',
      [CHR 0x09, CHR 0x09] @ quoted ''B'' @ [CHR 0x09, CHR 0x09] @ quoted ''2'',
      [CHR 0x09] @ ''}'',
      [CHR 0x09] @ quoted ''A'' @ [CHR 0x09, CHR 0x09] @ quoted ''1'',
      ''}'']"

text \<open>The same two sections with the entry \<open>A\<close> before the subsection.\<close>

definition acf_nested :: string where
  "acf_nested = unlines
     [quoted ''Root'',
      ''{'',
      ''    '' @ quoted ''A'' @ ''    '' @ quoted ''1'',
      ''    '' @ quoted ''Child'',
      ''    {'',
      ''        '' @ quoted ''B'' @ ''    '' @ quoted ''2'',
      ''    }'',
      ''}'']"

section \<open>Properties\<close>

subsection \<open>Mod resolvers: claims C4 and C5\<close>

lemma dict_of_None: "dict_of kvs k = None \<longleftrightarrow> k \<notin> fst ` set kvs"
  by (simp add: dict_of_def map_of_eq_None_iff)

lemma dict_of_distinct: "distinct (map fst kvs) \<Longrightarrow> (k, v) \<in> set kvs \<Longrightarrow> dict_of kvs k = Some v"
  by (simp add: dict_of_def distinct_rev rev_map [symmetric])

lemma dict_of_snoc: "dict_of (kvs @ [(k, v)]) = (dict_of kvs)(k \<mapsto> v)"
  by (simp add: dict_of_def)

lemma add_official_names:
  "snd (add_official (dc, dict_of kvs) official) =
     dict_of (kvs @ map (\<lambda>(modid, tag). (str_lower tag, modid)) official)"
proof (induction official arbitrary: dc kvs)
  case Nil
  then show ?case by simp
next
  case (Cons p official)
  obtain modid tag where p: "p = (modid, tag)" by (cases p)
  have "(dict_of kvs)(str_lower tag \<mapsto> modid) = dict_of (kvs @ [(str_lower tag, modid)])"
    by (simp add: dict_of_snoc)
  then show ?case using Cons.IH [of _ "kvs @ [(str_lower tag, modid)]"] by (simp add: p)
qed

lemma add_official_data:
  "fst (add_official (dc, m) official) i = None \<longleftrightarrow> dc i = None \<and> i \<notin> fst ` set official"
  by (induction official arbitrary: dc m) (force split: if_splits)+

lemma managed_tables:
  "ManagedModResolver_initialise installed official =
     ManagedModResolver (fst (add_official (dict_of installed,
         dict_of (map (\<lambda>(k, d). (str_lower (data_name d), data_id d)) installed)) official))
       (dict_of (managed_names installed official))"
proof -
  let ?kvs = "map (\<lambda>(k, d). (str_lower (data_name d), data_id d)) installed"
  obtain dc n2i where eq: "add_official (dict_of installed, dict_of ?kvs) official = (dc, n2i)"
    by (cases "add_official (dict_of installed, dict_of ?kvs) official")
  with add_official_names [of "dict_of installed" ?kvs official]
  have "n2i = dict_of (managed_names installed official)"
    by (simp add: managed_names_def)
  with eq show ?thesis
    by (simp add: ManagedModResolver_initialise_def)
qed

lemma managed_name_unregistered:
  assumes "i \<notin> fst ` set installed" "i \<notin> fst ` set official"
  shows "get_name_from_id (ManagedModResolver_initialise installed official) i = Inr (Some i)"
  using assms add_official_data [of "dict_of installed" _ official i]
  by (simp add: managed_tables dict_of_None)

lemma managed_name_total:
  "\<exists>n. get_name_from_id (ManagedModResolver_initialise installed official) i = Inr (Some n)"
  by (simp add: managed_tables split: option.splits)

lemma ini_name_unregistered:
  "i \<notin> fst ` set ids \<Longrightarrow> get_name_from_id (IniModResolver_initialise ids) i = Inr None"
  by (simp add: IniModResolver_initialise_def dict_of_None)

lemma fixed_name_unregistered:
  assumes "i \<notin> snd ` set items"
  shows "get_name_from_id (FixedModResolver_init items) i = Inl (KeyError i)"
proof -
  from assms have "dict_of (map (\<lambda>(k, v). (v, k)) items) i = None"
    unfolding dict_of_None by force
  then show ?thesis by (simp add: FixedModResolver_init_def)
qed

text \<open>Claim C4, as amended. \<open>ManagedModResolver.get_name_from_id\<close> never fails and
  returns an id that is not registered unchanged; for such an id \<open>IniModResolver\<close>
  returns \<open>None\<close> and \<open>FixedModResolver\<close> raises \<open>KeyError\<close>.\<close>

theorem get_name_from_id_unregistered:
  "(\<exists>n. get_name_from_id (ManagedModResolver_initialise installed official) i = Inr (Some n)) \<and>
   (i \<notin> fst ` set installed \<and> i \<notin> fst ` set official \<longrightarrow>
      get_name_from_id (ManagedModResolver_initialise installed official) i = Inr (Some i)) \<and>
   (i \<notin> fst ` set ids \<longrightarrow> get_name_from_id (IniModResolver_initialise ids) i = Inr None) \<and>
   (i \<notin> snd ` set items \<longrightarrow>
      get_name_from_id (FixedModResolver_init items) i = Inl (KeyError i))"
  using managed_name_total managed_name_unregistered ini_name_unregistered fixed_name_unregistered
  by blast

theorem get_name_from_id_unregistered_witness:
  "(''999'' \<notin> fst ` set example_installed \<and> ''999'' \<notin> fst ` set example_official) \<and>
   get_name_from_id (ManagedModResolver_initialise example_installed example_official) ''999''
     = Inr (Some ''999'') \<and>
   ''999'' \<notin> fst ` set [(''123'', ''MyMod'')] \<and>
   get_name_from_id (IniModResolver_initialise [(''123'', ''MyMod'')]) ''999'' = Inr None \<and>
   ''999'' \<notin> snd ` set [(''MyMod'', ''123'')] \<and>
   get_name_from_id (FixedModResolver_init [(''MyMod'', ''123'')]) ''999'' = Inl (KeyError ''999'')"
  using get_name_from_id_unregistered [of example_installed example_official "''999''"
      "[(''123'', ''MyMod'')]" "[(''MyMod'', ''123'')]"]
  by (simp add: example_installed_def example_official_def)

text \<open>Claim C4 as stated fails: for the unregistered id \<open>999\<close> the explicit-map resolver
  raises and the config-table resolver returns \<open>None\<close>; neither returns the id.\<close>

theorem get_name_from_id_counterexample:
  "get_name_from_id (FixedModResolver_init [(''MyMod'', ''123'')]) ''999'' = Inl (KeyError ''999'') \<and>
   get_name_from_id (IniModResolver_initialise [(''123'', ''MyMod'')]) ''999'' = Inr None"
  by (simp add: FixedModResolver_init_def IniModResolver_initialise_def dict_of_def)

lemma managed_id_unregistered:
  assumes "str_lower n \<notin> fst ` set (managed_names installed official)"
  shows "get_id_from_name (ManagedModResolver_initialise installed official) n = Inl (ModNotFound n)"
proof -
  from assms have "dict_of (managed_names installed official) (str_lower n) = None"
    by (simp add: dict_of_None)
  then show ?thesis by (simp add: managed_tables)
qed

lemma ini_id_unregistered:
  assumes "str_lower n \<notin> (\<lambda>(i, m). str_lower m) ` set ids"
  shows "get_id_from_name (IniModResolver_initialise ids) n = Inr None"
proof -
  from assms have "dict_of (map (\<lambda>(i, n). (str_lower n, i)) ids) (str_lower n) = None"
    unfolding dict_of_None by force
  then show ?thesis by (simp add: IniModResolver_initialise_def)
qed

lemma fixed_id_unregistered:
  "n \<notin> fst ` set items \<Longrightarrow> get_id_from_name (FixedModResolver_init items) n = Inl (KeyError n)"
  using dict_of_None [of items n] by (simp add: FixedModResolver_init_def)

lemma dict_of_last:
  "k \<notin> fst ` set post \<Longrightarrow> dict_of (pre @ (k, v) # post) k = Some v"
proof -
  assume "k \<notin> fst ` set post"
  then have "map_of (rev post) k = None" by (simp add: map_of_eq_None_iff)
  then show ?thesis by (simp add: dict_of_def map_add_def)
qed

lemma managed_id_last:
  assumes "managed_names installed official = pre @ (str_lower n, modid) # post"
    and "str_lower n \<notin> fst ` set post"
  shows "get_id_from_name (ManagedModResolver_initialise installed official) n =
           (if modid = [] then Inl (ModNotFound n) else Inr (Some modid))"
  using dict_of_last [OF assms(2), of pre modid] by (simp add: managed_tables assms(1))

lemma ini_id_last:
  assumes "ids = pre @ (modid, m) # post" and "str_lower n = str_lower m"
    and "str_lower n \<notin> (\<lambda>(i, m). str_lower m) ` set post"
  shows "get_id_from_name (IniModResolver_initialise ids) n = Inr (Some modid)"
proof -
  let ?f = "\<lambda>(i, n). (str_lower n, i)"
  have "str_lower n \<notin> fst ` set (map ?f post)"
    using assms(3) by force
  from dict_of_last [OF this, of "map ?f pre" modid]
  show ?thesis by (simp add: IniModResolver_initialise_def assms(1,2))
qed

lemma fixed_id_last:
  assumes "items = pre @ (n, modid) # post" and "n \<notin> fst ` set post"
  shows "get_id_from_name (FixedModResolver_init items) n = Inr (Some modid)"
  using dict_of_last [OF assms(2), of pre modid] by (simp add: FixedModResolver_init_def assms(1))

text \<open>Claim C5, as amended. For a name that is not registered \<open>ManagedModResolver\<close>
  raises \<open>ModNotFound\<close>, \<open>IniModResolver\<close> returns \<open>None\<close> and \<open>FixedModResolver\<close>
  raises \<open>KeyError\<close>. For a registered name each resolver returns the id of the last
  entry registered under that name: under its lower-case form for the first two resolvers
  (\<open>ManagedModResolver\<close> raising \<open>ModNotFound\<close> when that id is empty), under its
  exact spelling for the third.\<close>

theorem get_id_from_name_variants:
  "(str_lower n \<notin> fst ` set (managed_names installed official) \<longrightarrow>
      get_id_from_name (ManagedModResolver_initialise installed official) n = Inl (ModNotFound n)) \<and>
   (managed_names installed official = pre @ (str_lower n, modid) # post \<and>
    str_lower n \<notin> fst ` set post \<longrightarrow>
      get_id_from_name (ManagedModResolver_initialise installed official) n =
        (if modid = [] then Inl (ModNotFound n) else Inr (Some modid))) \<and>
   (str_lower n \<notin> (\<lambda>(i, m). str_lower m) ` set ids \<longrightarrow>
      get_id_from_name (IniModResolver_initialise ids) n = Inr None) \<and>
   (ids = ipre @ (modid, m) # ipost \<and> str_lower n = str_lower m \<and>
    str_lower n \<notin> (\<lambda>(i, m). str_lower m) ` set ipost \<longrightarrow>
      get_id_from_name (IniModResolver_initialise ids) n = Inr (Some modid)) \<and>
   (n \<notin> fst ` set items \<longrightarrow>
      get_id_from_name (FixedModResolver_init items) n = Inl (KeyError n)) \<and>
   (items = fpre @ (n, modid) # fpost \<and> n \<notin> fst ` set fpost \<longrightarrow>
      get_id_from_name (FixedModResolver_init items) n = Inr (Some modid))"
proof (intro conjI impI)
  assume "str_lower n \<notin> fst ` set (managed_names installed official)"
  then show "get_id_from_name (ManagedModResolver_initialise installed official) n
      = Inl (ModNotFound n)"
    by (rule managed_id_unregistered)
next
  assume "managed_names installed official = pre @ (str_lower n, modid) # post \<and>
    str_lower n \<notin> fst ` set post"
  then show "get_id_from_name (ManagedModResolver_initialise installed official) n =
        (if modid = [] then Inl (ModNotFound n) else Inr (Some modid))"
    using managed_id_last [of installed official pre n modid post] by simp
next
  assume "str_lower n \<notin> (\<lambda>(i, m). str_lower m) ` set ids"
  then show "get_id_from_name (IniModResolver_initialise ids) n = Inr None"
    by (rule ini_id_unregistered)
next
  assume "ids = ipre @ (modid, m) # ipost \<and> str_lower n = str_lower m \<and>
    str_lower n \<notin> (\<lambda>(i, m). str_lower m) ` set ipost"
  then show "get_id_from_name (IniModResolver_initialise ids) n = Inr (Some modid)"
    using ini_id_last [of ids ipre modid m ipost n] by blast
next
  assume "n \<notin> fst ` set items"
  then show "get_id_from_name (FixedModResolver_init items) n = Inl (KeyError n)"
    by (rule fixed_id_unregistered)
next
  assume "items = fpre @ (n, modid) # fpost \<and> n \<notin> fst ` set fpost"
  then show "get_id_from_name (FixedModResolver_init items) n = Inr (Some modid)"
    using fixed_id_last [of items fpre n modid fpost] by simp
qed

theorem get_id_from_name_variants_witness:
  "str_lower ''Unknown'' \<notin> fst ` set (managed_names example_installed example_official) \<and>
   get_id_from_name (ManagedModResolver_initialise example_installed example_official) ''Unknown''
     = Inl (ModNotFound ''Unknown'') \<and>
   (managed_names example_installed colliding_official =
      [(''structuresplus'', ''731604991'')] @ (str_lower ''StructuresPlus'', ''111111111'') # [] \<and>
    str_lower ''StructuresPlus'' \<notin> fst ` set ([] :: (string \<times> string) list)) \<and>
   get_id_from_name (ManagedModResolver_initialise example_installed colliding_official)
      ''StructuresPlus'' = Inr (Some ''111111111'') \<and>
   str_lower ''Unknown'' \<notin> (\<lambda>(i, m). str_lower m) ` set [(''123'', ''MyMod'')] \<and>
   get_id_from_name (IniModResolver_initialise [(''123'', ''MyMod'')]) ''Unknown'' = Inr None \<and>
   ([(''123'', ''MyMod''), (''456'', ''Other'')] = [] @ (''123'', ''MyMod'') # [(''456'', ''Other'')] \<and>
    str_lower ''mymod'' = str_lower ''MyMod'' \<and>
    str_lower ''mymod'' \<notin> (\<lambda>(i, m). str_lower m) ` set [(''456'', ''Other'')]) \<and>
   get_id_from_name (IniModResolver_initialise [(''123'', ''MyMod''), (''456'', ''Other'')]) ''mymod''
     = Inr (Some ''123'') \<and>
   ''Unknown'' \<notin> fst ` set [(''MyMod'', ''123'')] \<and>
   get_id_from_name (FixedModResolver_init [(''MyMod'', ''123'')]) ''Unknown'' = Inl (KeyError ''Unknown'') \<and>
   ([(''MyMod'', ''123'')] = [] @ (''MyMod'', ''123'') # [] \<and>
    ''MyMod'' \<notin> fst ` set ([] :: (string \<times> string) list)) \<and>
   get_id_from_name (FixedModResolver_init [(''MyMod'', ''123'')]) ''MyMod'' = Inr (Some ''123'')"
proof -
  have l1: "str_lower ''Unknown'' = ''unknown''" "str_lower ''StructuresPlus'' = ''structuresplus''"
    "str_lower ''mymod'' = ''mymod''" "str_lower ''MyMod'' = ''mymod''"
    "str_lower ''Other'' = ''other''"
    by code_simp+
  have l2: "managed_names example_installed example_official =
      [(''structuresplus'', ''731604991''), (''primitiveplus'', ''111111111'')]"
    by code_simp
  have l3: "managed_names example_installed colliding_official =
      [(''structuresplus'', ''731604991''), (''structuresplus'', ''111111111'')]"
    by code_simp
  have a: "get_id_from_name (ManagedModResolver_initialise example_installed example_official) ''Unknown''
     = Inl (ModNotFound ''Unknown'')"
    using get_id_from_name_variants [where n = "''Unknown''" and installed = example_installed
        and official = example_official]
    by (simp add: l1 l2)
  have b: "get_id_from_name (ManagedModResolver_initialise example_installed colliding_official)
      ''StructuresPlus'' = Inr (Some ''111111111'')"
    using get_id_from_name_variants [where n = "''StructuresPlus''" and installed = example_installed
        and official = colliding_official and pre = "[(''structuresplus'', ''731604991'')]"
        and modid = "''111111111''" and post = "[]"]
    by (simp add: l1 l3)
  have c: "get_id_from_name (IniModResolver_initialise [(''123'', ''MyMod'')]) ''Unknown'' = Inr None"
    using get_id_from_name_variants [where n = "''Unknown''" and ids = "[(''123'', ''MyMod'')]"]
    by (simp add: l1)
  have d: "get_id_from_name (IniModResolver_initialise [(''123'', ''MyMod''), (''456'', ''Other'')]) ''mymod''
     = Inr (Some ''123'')"
    using get_id_from_name_variants [where n = "''mymod''"
        and ids = "[(''123'', ''MyMod''), (''456'', ''Other'')]" and ipre = "[]"
        and modid = "''123''" and m = "''MyMod''" and ipost = "[(''456'', ''Other'')]"]
    by (simp add: l1)
  have e: "get_id_from_name (FixedModResolver_init [(''MyMod'', ''123'')]) ''Unknown'' = Inl (KeyError ''Unknown'')"
    using get_id_from_name_variants [where n = "''Unknown''" and items = "[(''MyMod'', ''123'')]"]
    by simp
  have f: "get_id_from_name (FixedModResolver_init [(''MyMod'', ''123'')]) ''MyMod'' = Inr (Some ''123'')"
    using get_id_from_name_variants [where n = "''MyMod''" and items = "[(''MyMod'', ''123'')]"
        and fpre = "[]" and modid = "''123''" and fpost = "[]"]
    by simp
  from a b c d e f show ?thesis by (simp add: l1 l2 l3)
qed

text \<open>Claim C5 as stated fails: the config-table resolver raises nothing for a name that
  is not registered, and the explicit-map resolver does not find a registered name
  written in another case.\<close>

theorem get_id_from_name_counterexample:
  "get_id_from_name (IniModResolver_initialise [(''123'', ''MyMod'')]) ''Other'' = Inr None \<and>
   get_id_from_name (FixedModResolver_init [(''MyMod'', ''123'')]) ''mymod'' = Inl (KeyError ''mymod'')"
  by (simp add: FixedModResolver_init_def IniModResolver_initialise_def dict_of_def str_lower_def chr_lower_def)

subsection \<open>Canonical names: claim C3\<close>

lemma split_from_not_Nil: "split_from sep cur s \<noteq> []"
  by (induction s arbitrary: cur) simp_all

lemma str_join_Cons: "ps \<noteq> [] \<Longrightarrow> str_join sep (p # ps) = p @ sep # str_join sep ps"
  by (cases ps) simp_all

lemma str_join_split_from: "str_join sep (split_from sep cur s) = rev cur @ s"
  by (induction s arbitrary: cur) (simp_all add: str_join_Cons split_from_not_Nil)

lemma str_join_split: "str_join sep (str_split sep s) = s"
  by (simp add: str_split_def str_join_split_from)

lemma dropWhile_hd: "s = [] \<or> \<not> P (hd s) \<Longrightarrow> dropWhile P s = s"
  by (cases s) auto

lemma rstrip_with_id: "s = [] \<or> \<not> P (last s) \<Longrightarrow> rstrip_with P s = s"
  by (cases s rule: rev_cases) (auto simp: rstrip_with_def)

lemma strip_with_id: "s = [] \<or> (\<not> P (hd s) \<and> \<not> P (last s)) \<Longrightarrow> strip_with P s = s"
  by (auto simp: strip_with_def lstrip_with_def dropWhile_hd rstrip_with_id)

lemma str_replace_id: "old \<notin> set s \<Longrightarrow> str_replace old new s = s"
  by (induction s) (auto simp: str_replace_def)

lemma isspace_slash: "\<not> isspace (CHR ''/'')"
  by (simp add: isspace_def)

lemma strip_slash_canonical:
  assumes "rest = [] \<or> (hd rest \<noteq> CHR ''/'' \<and> last rest \<noteq> CHR ''/'')"
  shows "str_strip_chr (CHR ''/'') (CHR ''/'' # rest) = rest"
  using assms
  by (auto simp: str_strip_chr_def strip_with_def lstrip_with_def dropWhile_hd rstrip_with_id)

lemma str_strip_canonical:
  assumes "rest = [] \<or> \<not> isspace (last rest)"
  shows "str_strip (CHR ''/'' # rest) = CHR ''/'' # rest"
  using assms
  by (auto simp: str_strip_def strip_with_def lstrip_with_def isspace_slash rstrip_with_id)

lemma strip_backslash_id:
  assumes "CHR 0x5C \<notin> set rest"
  shows "str_strip_chr (CHR 0x5C) rest = rest"
proof (cases "rest = []")
  case True
  then show ?thesis by (simp add: str_strip_chr_def strip_with_def lstrip_with_def rstrip_with_def)
next
  case False
  then have "hd rest \<in> set rest" "last rest \<in> set rest" by simp_all
  with assms have "hd rest \<noteq> CHR 0x5C \<and> last rest \<noteq> CHR 0x5C" by metis
  with False show ?thesis by (simp add: str_strip_chr_def strip_with_id)
qed

lemma rejoin_parts_split:
  "str_lower (str_split (CHR ''/'') rest ! 0) \<noteq> ''content'' \<Longrightarrow>
     rejoin_parts (str_split (CHR ''/'') rest) = CHR ''/'' # rest"
  by (simp add: rejoin_parts_def str_join_split)

lemma clean_canonical:
  assumes "canonical_name R c"
  shows "clean_asset_name R c = Inr c"
proof -
  from assms obtain rest where c: "c = CHR ''/'' # rest"
    and dot: "CHR ''.'' \<notin> set rest" and bs: "CHR 0x5C \<notin> set rest"
    and ends: "rest = [] \<or> (hd rest \<noteq> CHR ''/'' \<and> last rest \<noteq> CHR ''/'' \<and> \<not> isspace (last rest))"
    and first: "str_lower (str_split (CHR ''/'') rest ! 0) \<noteq> ''content''"
    and modseg: "length (str_split (CHR ''/'') rest) > 2 \<and>
        str_lower (str_split (CHR ''/'') rest ! 1) = ''mods'' \<and>
        str_isnumeric (str_split (CHR ''/'') rest ! 2) \<Longrightarrow>
        get_name_from_id R (str_split (CHR ''/'') rest ! 2)
          = Inr (Some (str_split (CHR ''/'') rest ! 2))"
    by (auto simp: canonical_name_def Let_def split: list.splits if_splits)
  have nodot: "CHR ''.'' \<notin> set c" using c dot by simp
  have s1: "str_strip c = c"
    unfolding c using ends by (intro str_strip_canonical) auto
  have s2: "str_strip_chr (CHR ''/'') c = rest"
    unfolding c using ends by (intro strip_slash_canonical) auto
  have norm: "name_parts c = str_split (CHR ''/'') rest"
    using nodot
    by (simp add: name_parts_def s1 s2 strip_backslash_id [OF bs] str_replace_id [OF bs])
  have eq: "clean_asset_name R c =
      (if length (str_split (CHR ''/'') rest) > 2 \<and>
          str_lower (str_split (CHR ''/'') rest ! 1) = ''mods'' \<and>
          str_isnumeric (str_split (CHR ''/'') rest ! 2)
       then (case get_name_from_id R (str_split (CHR ''/'') rest ! 2) of
               Inl e \<Rightarrow> Inl e
             | Inr None \<Rightarrow> Inl TypeError
             | Inr (Some mod_name) \<Rightarrow>
                 Inr (rejoin_parts ((str_split (CHR ''/'') rest)[2 := mod_name])))
       else Inr (rejoin_parts (str_split (CHR ''/'') rest)))"
    unfolding clean_asset_name_def Let_def by (simp only: norm)
  have rj: "rejoin_parts (str_split (CHR ''/'') rest) = c"
    using first by (simp add: rejoin_parts_split c)
  show ?thesis
  proof (cases "length (str_split (CHR ''/'') rest) > 2 \<and>
        str_lower (str_split (CHR ''/'') rest ! 1) = ''mods'' \<and>
        str_isnumeric (str_split (CHR ''/'') rest ! 2)")
    case True
    from modseg [OF True] True show ?thesis
      by (simp add: eq rj)
  next
    case False
    then show ?thesis
      by (simp only: eq if_False rj)
  qed
qed

lemma split_from_chars:
  "p \<in> set (split_from sep cur s) \<Longrightarrow> set p \<subseteq> set cur \<union> set s"
  by (induction s arbitrary: cur) (fastforce split: if_splits)+

lemma split_from_no_sep:
  "p \<in> set (split_from sep cur s) \<Longrightarrow> sep \<notin> set cur \<Longrightarrow> sep \<notin> set p"
  by (induction s arbitrary: cur) (fastforce split: if_splits)+

lemma str_split_part:
  "p \<in> set (str_split sep s) \<Longrightarrow> sep \<notin> set p \<and> set p \<subseteq> set s"
  using split_from_chars [of p sep "[]" s] split_from_no_sep [of p sep "[]" s]
  by (simp add: str_split_def)

lemma set_strip_with: "set (strip_with P s) \<subseteq> set s"
proof -
  have "set (rev (dropWhile P (rev (dropWhile P s)))) \<subseteq> set (dropWhile P s)"
    using set_dropWhileD [of _ P "rev (dropWhile P s)"] by auto
  moreover have "set (dropWhile P s) \<subseteq> set s"
    using set_dropWhileD [of _ P s] by auto
  ultimately show ?thesis
    by (simp add: strip_with_def lstrip_with_def rstrip_with_def)
qed

lemma set_str_replace: "set (str_replace old new s) \<subseteq> (set s - {old}) \<union> set new"
  by (induction s) (auto simp: str_replace_def)

lemma name_parts_chars:
  assumes "p \<in> set (name_parts n)"
  shows "CHR ''.'' \<notin> set p \<and> CHR ''/'' \<notin> set p \<and> CHR 0x5C \<notin> set p"
proof -
  define n1 where "n1 = (if CHR ''.'' \<in> set n then takeWhile (\<lambda>c. c \<noteq> CHR ''.'') n else n)"
  define n2 where "n2 = str_replace (CHR 0x5C) ''/''
                 (str_strip_chr (CHR 0x5C) (str_strip_chr (CHR ''/'') (str_strip n1)))"
  have d1: "CHR ''.'' \<notin> set n1"
    using set_takeWhileD [of "CHR ''.''" "\<lambda>c. c \<noteq> CHR ''.''" n] by (auto simp: n1_def)
  have sub: "set (str_strip_chr (CHR 0x5C) (str_strip_chr (CHR ''/'') (str_strip n1))) \<subseteq> set n1"
    using set_strip_with [of "\<lambda>x. x = CHR 0x5C" "str_strip_chr (CHR ''/'') (str_strip n1)"]
      set_strip_with [of "\<lambda>x. x = CHR ''/''" "str_strip n1"] set_strip_with [of isspace n1]
    by (simp add: str_strip_chr_def str_strip_def)
  have n2: "CHR ''.'' \<notin> set n2 \<and> CHR 0x5C \<notin> set n2"
    using set_str_replace [of "CHR 0x5C" "''/''" "str_strip_chr (CHR 0x5C) (str_strip_chr (CHR ''/'') (str_strip n1))"]
      sub d1 by (auto simp: n2_def)
  from assms have "p \<in> set (str_split (CHR ''/'') n2)"
    by (simp add: name_parts_def n1_def n2_def Let_def)
  from str_split_part [OF this] n2 show ?thesis by auto
qed

lemma name_parts_not_Nil: "name_parts n \<noteq> []"
  by (simp add: name_parts_def Let_def str_split_def split_from_not_Nil)

lemma set_str_join: "set (str_join sep ps) \<subseteq> insert sep (\<Union>(set ` set ps))"
  by (induction sep ps rule: str_join.induct) auto

lemma hd_str_join: "ps \<noteq> [] \<Longrightarrow> hd ps \<noteq> [] \<Longrightarrow> hd (str_join sep ps) = hd (hd ps)"
  by (induction sep ps rule: str_join.induct) auto

lemma str_join_eq_Nil: "str_join sep ps = [] \<Longrightarrow> ps = [] \<or> ps = [[]]"
  by (induction sep ps rule: str_join.induct) auto

lemma last_str_join: "ps \<noteq> [] \<Longrightarrow> last ps \<noteq> [] \<Longrightarrow> last (str_join sep ps) = last (last ps)"
proof (induction sep ps rule: str_join.induct)
  case (3 sep p q ps)
  from "3.prems" have "str_join sep (q # ps) \<noteq> []"
    using str_join_eq_Nil [of sep "q # ps"] by auto
  with 3 show ?case by simp
qed simp_all

lemma split_from_append:
  "sep \<notin> set p \<Longrightarrow> split_from sep cur (p @ s) = split_from sep (rev p @ cur) s"
  by (induction p arbitrary: cur) auto

lemma str_split_join:
  "ps \<noteq> [] \<Longrightarrow> \<forall>p\<in>set ps. sep \<notin> set p \<Longrightarrow> str_split sep (str_join sep ps) = ps"
proof (induction sep ps rule: str_join.induct)
  case (1 sep)
  then show ?case by simp
next
  case (2 sep p)
  then show ?case
    using split_from_append [of sep p "[]" "[]"] by (simp add: str_split_def)
next
  case (3 sep p q ps)
  then have "str_split sep (str_join sep (q # ps)) = q # ps" by simp
  moreover have "split_from sep [] (p @ sep # str_join sep (q # ps)) =
      p # split_from sep [] (str_join sep (q # ps))"
    using "3.prems" split_from_append [of sep p "[]" "sep # str_join sep (q # ps)"] by simp
  ultimately show ?case by (simp add: str_split_def)
qed

lemma game_facts:
  "str_lower ''Game'' \<noteq> ''content''" "\<not> isspace (last ''Game'')"
  "CHR ''.'' \<notin> set ''Game''" "CHR ''/'' \<notin> set ''Game''" "CHR 0x5C \<notin> set ''Game''"
  by code_simp+

lemma canonical_join:
  assumes ne: "qs \<noteq> []"
    and chars: "\<forall>p\<in>set qs. CHR ''.'' \<notin> set p \<and> CHR ''/'' \<notin> set p \<and> CHR 0x5C \<notin> set p"
    and ends: "qs = [[]] \<or> (hd qs \<noteq> [] \<and> last qs \<noteq> [] \<and> \<not> isspace (last (last qs)))"
    and first: "str_lower (qs ! 0) \<noteq> ''content''"
    and modseg: "length qs > 2 \<and> str_lower (qs ! 1) = ''mods'' \<and> str_isnumeric (qs ! 2) \<Longrightarrow>
                   get_name_from_id R (qs ! 2) = Inr (Some (qs ! 2))"
  shows "canonical_name R (CHR ''/'' # str_join (CHR ''/'') qs)"
proof -
  let ?rest = "str_join (CHR ''/'') qs"
  have sp: "str_split (CHR ''/'') ?rest = qs"
    using ne chars by (intro str_split_join) auto
  have dot: "CHR ''.'' \<notin> set ?rest" and bs: "CHR 0x5C \<notin> set ?rest"
    using set_str_join [of "CHR ''/''" qs] chars by auto
  have e: "?rest = [] \<or> (hd ?rest \<noteq> CHR ''/'' \<and> last ?rest \<noteq> CHR ''/'' \<and> \<not> isspace (last ?rest))"
  proof (cases "qs = [[]]")
    case True
    then show ?thesis by simp
  next
    case False
    with ends have h: "hd qs \<noteq> []" and l: "last qs \<noteq> []" and w: "\<not> isspace (last (last qs))"
      by simp_all
    have hq: "hd qs \<in> set qs" and lq: "last qs \<in> set qs" using ne by simp_all
    have "hd (hd qs) \<in> set (hd qs)" "last (last qs) \<in> set (last qs)" using h l by simp_all
    with chars hq lq have "hd (hd qs) \<noteq> CHR ''/''" "last (last qs) \<noteq> CHR ''/''" by metis+
    then show ?thesis
      using w by (simp add: hd_str_join [OF ne h] last_str_join [OF ne l])
  qed
  show ?thesis
    unfolding canonical_name_def using dot bs e first modseg
    by (simp add: sp Let_def del: One_nat_def)
qed

lemma canonical_rejoin:
  assumes ne: "ps \<noteq> []"
    and chars: "\<forall>p\<in>set ps. CHR ''.'' \<notin> set p \<and> CHR ''/'' \<notin> set p \<and> CHR 0x5C \<notin> set p"
    and ends: "ps = [[]] \<or> (hd ps \<noteq> [] \<and> last ps \<noteq> [] \<and> \<not> isspace (last (last ps)))"
    and modseg: "length ps > 2 \<and> str_lower (ps ! 1) = ''mods'' \<and> str_isnumeric (ps ! 2) \<Longrightarrow>
                   get_name_from_id R (ps ! 2) = Inr (Some (ps ! 2))"
  shows "canonical_name R (rejoin_parts ps)"
proof (cases "str_lower (ps ! 0) = ''content''")
  case False
  with assms show ?thesis
    unfolding rejoin_parts_def by (simp only: if_False simp_thms) (rule canonical_join)
next
  case True
  let ?qs = "ps[0 := ''Game'']"
  have not_empty: "ps \<noteq> [[]]" using True by (auto simp: str_lower_def)
  with ends have h: "hd ps \<noteq> []" and l: "last ps \<noteq> []" and w: "\<not> isspace (last (last ps))"
    by simp_all
  have q1: "?qs \<noteq> []" using ne by simp
  have q2: "\<forall>p\<in>set ?qs. CHR ''.'' \<notin> set p \<and> CHR ''/'' \<notin> set p \<and> CHR 0x5C \<notin> set p"
  proof
    fix p assume "p \<in> set ?qs"
    then have "p = ''Game'' \<or> p \<in> set ps"
      using set_update_subset_insert [of ps 0 "''Game''"] by auto
    with chars game_facts(3-5) show "CHR ''.'' \<notin> set p \<and> CHR ''/'' \<notin> set p \<and> CHR 0x5C \<notin> set p"
      by metis
  qed
  have hdq: "hd ?qs = ''Game''" using ne by (cases ps) simp_all
  have lastq: "last ?qs = (if length ps = 1 then ''Game'' else last ps)"
    using ne by (cases ps) (simp_all add: last_conv_nth)
  have q3: "?qs = [[]] \<or> (hd ?qs \<noteq> [] \<and> last ?qs \<noteq> [] \<and> \<not> isspace (last (last ?qs)))"
    using l w game_facts(2) by (simp add: hdq lastq)
  have q4: "str_lower (?qs ! 0) \<noteq> ''content''"
    using ne game_facts(1) by simp
  have q5: "length ?qs > 2 \<and> str_lower (?qs ! 1) = ''mods'' \<and> str_isnumeric (?qs ! 2) \<Longrightarrow>
                   get_name_from_id R (?qs ! 2) = Inr (Some (?qs ! 2))"
    using modseg by simp
  from True ne show ?thesis
    unfolding rejoin_parts_def
    by (simp only: if_True simp_thms) (rule canonical_join [OF q1 q2 q3 q4 q5])
qed

lemma well_formed_canonical:
  assumes "well_formed_name R n"
  shows "\<exists>c. clean_asset_name R n = Inr c \<and> canonical_name R c"
proof -
  let ?parts = "name_parts n"
  have ne: "?parts \<noteq> []" by (rule name_parts_not_Nil)
  have chars: "\<forall>p\<in>set ?parts. CHR ''.'' \<notin> set p \<and> CHR ''/'' \<notin> set p \<and> CHR 0x5C \<notin> set p"
    using name_parts_chars by blast
  from assms have ends:
    "?parts = [[]] \<or> (hd ?parts \<noteq> [] \<and> last ?parts \<noteq> [] \<and> \<not> isspace (last (last ?parts)))"
    by (simp add: well_formed_name_def Let_def)
  show ?thesis
  proof (cases "length ?parts > 2 \<and> str_lower (?parts ! 1) = ''mods'' \<and> str_isnumeric (?parts ! 2)")
    case False
    then have "clean_asset_name R n = Inr (rejoin_parts ?parts)"
      unfolding clean_asset_name_def Let_def by (simp only: if_False)
    moreover have "canonical_name R (rejoin_parts ?parts)"
      using False by (intro canonical_rejoin [OF ne chars ends]) simp
    ultimately show ?thesis by simp
  next
    case True
    with assms obtain a where a: "get_name_from_id R (?parts ! 2) = Inr (Some a)"
      and a1: "a \<noteq> []" and a2: "\<not> isspace (last a)"
      and a3: "CHR ''.'' \<notin> set a \<and> CHR ''/'' \<notin> set a \<and> CHR 0x5C \<notin> set a"
      and a4: "str_isnumeric a \<Longrightarrow> get_name_from_id R a = Inr (Some a)"
      by (auto simp: well_formed_name_def Let_def split: sum.splits option.splits if_splits
          simp del: One_nat_def)
    let ?ps = "?parts[2 := a]"
    from True a have c: "clean_asset_name R n = Inr (rejoin_parts ?ps)"
      by (simp add: clean_asset_name_def Let_def del: One_nat_def)
    have len: "length ?parts > 2" using True by simp
    then have not_single: "?parts \<noteq> [[]]" by auto
    with ends have h: "hd ?parts \<noteq> []" and l: "last ?parts \<noteq> []"
      and w: "\<not> isspace (last (last ?parts))" by simp_all
    have p1: "?ps \<noteq> []" using ne by simp
    have p2: "\<forall>p\<in>set ?ps. CHR ''.'' \<notin> set p \<and> CHR ''/'' \<notin> set p \<and> CHR 0x5C \<notin> set p"
    proof
      fix p assume "p \<in> set ?ps"
      then have "p = a \<or> p \<in> set ?parts"
        using set_update_subset_insert [of ?parts 2 a] by auto
      with chars a3 show "CHR ''.'' \<notin> set p \<and> CHR ''/'' \<notin> set p \<and> CHR 0x5C \<notin> set p"
        by metis
    qed
    have hdp: "hd ?ps = hd ?parts"
      by (cases ?parts) (simp_all add: list_update_code)
    have lastp: "last ?ps = (if length ?parts = 3 then a else last ?parts)"
      using len ne by (auto simp: last_list_update)
    have p3: "?ps = [[]] \<or> (hd ?ps \<noteq> [] \<and> last ?ps \<noteq> [] \<and> \<not> isspace (last (last ?ps)))"
      using h l w a1 a2 by (simp add: hdp lastp)
    have p4: "length ?ps > 2 \<and> str_lower (?ps ! 1) = ''mods'' \<and> str_isnumeric (?ps ! 2) \<Longrightarrow>
                   get_name_from_id R (?ps ! 2) = Inr (Some (?ps ! 2))"
      using a4 len by simp
    have "canonical_name R (rejoin_parts ?ps)"
      by (rule canonical_rejoin [OF p1 p2 p3 p4])
    with c show ?thesis by simp
  qed
qed

text \<open>Claim C3, as amended. A well-formed raw name can be cleaned, and cleaning the
  result again gives the same name.\<close>

theorem clean_asset_name_idempotent:
  assumes "well_formed_name R n"
  shows "\<exists>c. clean_asset_name R n = Inr c \<and> clean_asset_name R c = Inr c"
  using well_formed_canonical [OF assms] clean_canonical by blast

theorem clean_asset_name_idempotent_witness:
  "well_formed_name (FixedModResolver_init [(''MyMod'', ''123'')]) example_raw_name \<and>
   clean_asset_name (FixedModResolver_init [(''MyMod'', ''123'')]) example_raw_name
     = Inr ''/Game/Mods/MyMod/Thing'' \<and>
   clean_asset_name (FixedModResolver_init [(''MyMod'', ''123'')]) ''/Game/Mods/MyMod/Thing''
     = Inr ''/Game/Mods/MyMod/Thing''"
proof -
  have h1: "well_formed_name (FixedModResolver_init [(''MyMod'', ''123'')]) example_raw_name"
    by code_simp
  have h2: "clean_asset_name (FixedModResolver_init [(''MyMod'', ''123'')]) example_raw_name
     = Inr ''/Game/Mods/MyMod/Thing''"
    by code_simp
  from clean_asset_name_idempotent [OF h1] h1 h2 show ?thesis by simp
qed

text \<open>Claim C3 as stated fails: a blank before a final slash survives the first cleaning
  and not the second, and a mod alias with a full stop is cut at the full stop by the
  second cleaning.\<close>

theorem clean_asset_name_not_idempotent:
  "clean_asset_name (FixedModResolver_init []) ''Game/Maps/Area /'' = Inr ''/Game/Maps/Area '' \<and>
   clean_asset_name (FixedModResolver_init []) ''/Game/Maps/Area '' = Inr ''/Game/Maps/Area'' \<and>
   clean_asset_name (FixedModResolver_init [(''My.Mod'', ''123'')]) ''/Game/Mods/123/Thing''
     = Inr ''/Game/Mods/My.Mod/Thing'' \<and>
   clean_asset_name (FixedModResolver_init [(''My.Mod'', ''123'')]) ''/Game/Mods/My.Mod/Thing''
     = Inr ''/Game/Mods/My''"
  by code_simp

subsection \<open>The cache: claim C9\<close>

text \<open>Claim C9. After \<open>wipe(p)\<close> a lookup of a name that starts with \<open>p\<close> returns
  nothing, a name that does not start with \<open>p\<close> is looked up as before, and the empty
  prefix removes every entry.\<close>

theorem wipe_prefix:
  "(startswith k p \<longrightarrow> cache_lookup (cache_wipe c p) k = None) \<and>
   (\<not> startswith k p \<longrightarrow> cache_lookup (cache_wipe c p) k = cache_lookup c k) \<and>
   cache_wipe c [] = Map.empty"
  by (simp add: cache_wipe_def cache_lookup_def startswith_def)

theorem wipe_prefix_witness:
  "startswith ''/Game/Mods/A/X'' ''/Game/Mods/A'' \<and>
   cache_lookup (cache_wipe [''/Game/Mods/A/X'' \<mapsto> (1::nat), ''/Game/Core/Y'' \<mapsto> 2] ''/Game/Mods/A'')
      ''/Game/Mods/A/X'' = None \<and>
   \<not> startswith ''/Game/Core/Y'' ''/Game/Mods/A'' \<and>
   cache_lookup (cache_wipe [''/Game/Mods/A/X'' \<mapsto> (1::nat), ''/Game/Core/Y'' \<mapsto> 2] ''/Game/Mods/A'')
      ''/Game/Core/Y'' = Some 2"
  using wipe_prefix [of "''/Game/Mods/A/X''" "''/Game/Mods/A''" "[''/Game/Mods/A/X'' \<mapsto> (1::nat), ''/Game/Core/Y'' \<mapsto> 2]"]
    wipe_prefix [of "''/Game/Core/Y''" "''/Game/Mods/A''" "[''/Game/Mods/A/X'' \<mapsto> (1::nat), ''/Game/Core/Y'' \<mapsto> 2]"]
  by (simp add: startswith_def cache_lookup_def)

subsection \<open>The loader: claims C1, C8 and C10\<close>

lemma load_raw_asset_cache: "load_raw_asset L s an = (r, s1) \<Longrightarrow> cache s1 = cache s \<and> next_ident s1 = next_ident s"
  by (auto simp: load_raw_asset_def split: sum.splits option.splits prod.splits)

lemma load_raw_asset_reads:
  "load_raw_asset L s an = (Inr m, s1) \<Longrightarrow> \<exists>f. reads s1 = reads s @ [f]"
  by (auto simp: load_raw_asset_def split: sum.splits option.splits prod.splits)

lemma load_raw_asset_reads_fail:
  "load_raw_asset L s an = (Inl e, s1) \<Longrightarrow> s1 = s"
  by (auto simp: load_raw_asset_def split: sum.splits option.splits prod.splits)

lemma load_asset_fail_cache:
  "load_asset L s an dnl = (Inl e, s') \<Longrightarrow> cache s' = cache s"
  by (auto simp: load_asset_def Let_def dest!: load_raw_asset_cache split: sum.splits prod.splits if_splits)

lemma load_asset_partial_cache:
  "load_asset L s an True = (r, s') \<Longrightarrow> cache s' = cache s"
  by (auto simp: load_asset_def Let_def dest!: load_raw_asset_cache split: sum.splits prod.splits if_splits)

lemma load_asset_full_ok:
  "load_asset L s an False = (Inr a, s') \<Longrightarrow>
     fully_loaded L a \<and> cache s' = (cache s)(an \<mapsto> a) \<and> (\<exists>f. reads s' = reads s @ [f])"
  apply (clarsimp simp: load_asset_def Let_def split: sum.splits prod.splits if_splits)
  apply (frule load_raw_asset_cache)
  apply (drule load_raw_asset_reads)
  apply (auto simp: fully_loaded_def cache_add_def)
  done

lemma ex_clean: "clean_asset_name (FixedModResolver_init [(''MyMod'', ''123'')]) ''/Game/Core/Thing.Thing_C'' = Inr ''/Game/Core/Thing''"
  by code_simp

lemma ex_clean2: "clean_asset_name (FixedModResolver_init [(''MyMod'', ''123'')]) ''/Game/Core/Thing'' = Inr ''/Game/Core/Thing''"
  by code_simp

lemma ex_find: "find_raw example_loader ''/Game/Core/Thing'' [''.uasset'', ''.umap''] = Inr (Some (''./Content/Core/Thing.uasset'', [1,2,3]))"
  by code_simp

lemma ex_name: "last (str_split (CHR ''/'') ''/Game/Core/Thing'') = ''Thing''"
  by code_simp

lemma ex_sw: "startswith ''Default__Thing_C'' ''Default__''" "\<not> startswith ''Thing_C'' ''Default__''"
  by code_simp+

lemma ex_mr: "modresolver example_loader = FixedModResolver_init [(''MyMod'', ''123'')]"
  by (simp add: example_loader_def)

lemma ex_getitem: "getitem example_loader initial_state ''/Game/Core/Thing.Thing_C'' = (Inr example_asset, example_state)"
proof -
  have mr: "modresolver example_loader = FixedModResolver_init [(''MyMod'', ''123'')]"
    by (simp add: example_loader_def)
  have raw: "load_raw_asset example_loader initial_state ''/Game/Core/Thing''
     = (Inr [1,2,3], initial_state\<lparr>reads := [''./Content/Core/Thing.uasset'']\<rparr>)"
    by (simp add: load_raw_asset_def mr ex_clean2 ex_find initial_state_def del: find_raw.simps)
  have la: "load_asset example_loader initial_state ''/Game/Core/Thing'' False
     = (Inr example_asset, example_state)"
    unfolding load_asset_def raw
    by (simp add: Let_def example_loader_def initial_state_def ex_name ex_sw cache_add_def
          example_asset_def example_state_def)
  have "cache_lookup (cache (initial_state :: byte list loader_state)) ''/Game/Core/Thing'' = None"
    by (simp add: cache_lookup_def initial_state_def)
  then show ?thesis
    by (simp add: getitem_def mr ex_clean la)
qed

lemma ex_find_broken: "find_raw example_loader ''/Game/Core/Broken'' [''.uasset'', ''.umap''] = Inr (Some (''./Content/Core/Broken.uasset'', []))"
  by code_simp

lemma ex_clean_broken: "clean_asset_name (FixedModResolver_init [(''MyMod'', ''123'')]) ''/Game/Core/Broken'' = Inr ''/Game/Core/Broken''"
  by code_simp

lemma ex_load_broken:
  "load_asset example_loader example_state ''/Game/Core/Broken'' False =
     (Inl (AssetLoadException ''no tables''),
      example_state\<lparr>reads := reads example_state @ [''./Content/Core/Broken.uasset''],
                     next_ident := 2\<rparr>)"
proof -
  have raw: "load_raw_asset example_loader example_state ''/Game/Core/Broken'' =
      (Inr [], example_state\<lparr>reads := reads example_state @ [''./Content/Core/Broken.uasset'']\<rparr>)"
    by (simp add: load_raw_asset_def ex_mr ex_clean_broken ex_find_broken del: find_raw.simps)
  show ?thesis
    unfolding load_asset_def raw
    by (simp add: Let_def example_loader_def example_state_def)
qed

lemma ex_load_partial:
  "partially_load_asset example_loader example_state ''/Game/Core/Thing'' =
     (Inr \<lparr>ident = 1, assetname = ''/Game/Core/Thing'', name = ''Thing'', contents = [1, 2, 3],
           default_export = None, default_class = None\<rparr>,
      example_state\<lparr>reads := reads example_state @ [''./Content/Core/Thing.uasset''],
                     next_ident := 2\<rparr>)"
proof -
  have raw: "load_raw_asset example_loader example_state ''/Game/Core/Thing'' =
      (Inr [1, 2, 3], example_state\<lparr>reads := reads example_state @ [''./Content/Core/Thing.uasset'']\<rparr>)"
    by (simp add: load_raw_asset_def ex_mr ex_clean2 ex_find del: find_raw.simps)
  show ?thesis
    unfolding partially_load_asset_def load_asset_def raw
    by (simp add: Let_def example_loader_def example_state_def ex_name)
qed

text \<open>Claim C1. When a retrieve of a name that is not cached succeeds, it reads one file,
  and a second retrieve of the same name returns the same object (the same \<open>ident\<close>,
  the same record) and leaves the state as it is: nothing more is read.\<close>

theorem getitem_cached_once:
  assumes "clean_asset_name (modresolver L) x = Inr c" and "cache s c = None"
    and "getitem L s x = (Inr a, s1)"
  shows "getitem L s1 x = (Inr a, s1) \<and> (\<exists>f. reads s1 = reads s @ [f])"
proof -
  from assms have la: "load_asset L s c False = (Inr a, s1)"
    by (simp add: getitem_def cache_lookup_def)
  from load_asset_full_ok [OF la] have "cache s1 c = Some a" and rd: "\<exists>f. reads s1 = reads s @ [f]"
    by auto
  then show ?thesis using assms(1) by (simp add: getitem_def cache_lookup_def)
qed

theorem getitem_cached_once_witness:
  "clean_asset_name (modresolver example_loader) ''/Game/Core/Thing.Thing_C'' = Inr ''/Game/Core/Thing'' \<and>
   cache (initial_state :: byte list loader_state) ''/Game/Core/Thing'' = None \<and>
   getitem example_loader initial_state ''/Game/Core/Thing.Thing_C'' = (Inr example_asset, example_state) \<and>
   getitem example_loader example_state ''/Game/Core/Thing.Thing_C'' = (Inr example_asset, example_state) \<and>
   (\<exists>f. reads example_state = reads (initial_state :: byte list loader_state) @ [f])"
proof -
  have h1: "clean_asset_name (modresolver example_loader) ''/Game/Core/Thing.Thing_C'' = Inr ''/Game/Core/Thing''"
    by (simp add: example_loader_def ex_clean)
  have h2: "cache (initial_state :: byte list loader_state) ''/Game/Core/Thing'' = None"
    by (simp add: initial_state_def)
  from getitem_cached_once [OF h1 h2 ex_getitem] h1 h2 ex_getitem show ?thesis by simp
qed

lemma getitem_inv:
  assumes "getitem L s an = (r, s')" and "\<forall>k a. cache s k = Some a \<longrightarrow> fully_loaded L a"
  shows "\<forall>k a. cache s' k = Some a \<longrightarrow> fully_loaded L a"
proof (cases "clean_asset_name (modresolver L) an")
  case (Inl e) with assms show ?thesis by (simp add: getitem_def)
next
  case (Inr c)
  show ?thesis
  proof (cases "cache s c")
    case (Some a) with Inr assms show ?thesis by (simp add: getitem_def cache_lookup_def)
  next
    case None
    with Inr assms have la: "load_asset L s c False = (r, s')" by (simp add: getitem_def cache_lookup_def)
    show ?thesis
    proof (cases r)
      case (Inl e) with la load_asset_fail_cache[of L s c False e s'] assms(2) show ?thesis by simp
    next
      case (Inr a) with la load_asset_full_ok[of L s c a s'] assms(2) show ?thesis by auto
    qed
  qed
qed

lemma delitem_cache:
  "delitem L s an = (u, s') \<Longrightarrow> cache s' k = Some a \<Longrightarrow> cache s k = Some a"
  by (auto simp: delitem_def cache_remove_def split: sum.splits option.splits if_splits)

lemma cache_wipe_Some: "cache_wipe c p k = Some a \<Longrightarrow> c k = Some a"
  by (auto simp: cache_wipe_def split: if_splits)

lemma reachable_inv: "reachable L s \<Longrightarrow> \<forall>k a. cache s k = Some a \<longrightarrow> fully_loaded L a"
proof (induction rule: reachable.induct)
  case r_init
  then show ?case by (simp add: initial_state_def)
next
  case (r_getitem s an r s')
  then show ?case using getitem_inv by blast
next
  case (r_delitem s an u s')
  then show ?case using delitem_cache by blast
next
  case (r_partial s an r s')
  then show ?case using load_asset_partial_cache[of L s an r s'] by (simp add: partially_load_asset_def)
next
  case (r_wipe s)
  then show ?case by (auto simp: wipe_cache_def dest: cache_wipe_Some)
next
  case (r_wipe_prefix s prefix)
  then show ?case by (auto simp: wipe_cache_with_prefix_def dest: cache_wipe_Some)
qed

text \<open>Claim C8. A load that raises leaves the cache as it was; a shallow load never
  changes the cache; and in every state the loader can reach, each cached asset is fully
  loaded: linked, with its default export identified.\<close>

theorem cache_only_full_loads:
  "(load_asset L s an doNotLink = (Inl e, s') \<longrightarrow> cache s' = cache s) \<and>
   (partially_load_asset L s an = (r, s') \<longrightarrow> cache s' = cache s) \<and>
   (reachable L t \<longrightarrow> cache t k = Some a \<longrightarrow> fully_loaded L a)"
  using load_asset_fail_cache[of L s an doNotLink e s'] load_asset_partial_cache[of L s an r s']
    reachable_inv[of L t]
  by (simp add: partially_load_asset_def)

theorem cache_only_full_loads_witness:
  "load_asset example_loader example_state ''/Game/Core/Broken'' False =
     (Inl (AssetLoadException ''no tables''),
      example_state\<lparr>reads := reads example_state @ [''./Content/Core/Broken.uasset''],
                     next_ident := 2\<rparr>) \<and>
   cache (example_state\<lparr>reads := reads example_state @ [''./Content/Core/Broken.uasset''],
                        next_ident := 2\<rparr>) = cache example_state \<and>
   partially_load_asset example_loader example_state ''/Game/Core/Thing'' =
     (Inr \<lparr>ident = 1, assetname = ''/Game/Core/Thing'', name = ''Thing'', contents = [1, 2, 3],
           default_export = None, default_class = None\<rparr>,
      example_state\<lparr>reads := reads example_state @ [''./Content/Core/Thing.uasset''],
                     next_ident := 2\<rparr>) \<and>
   cache (example_state\<lparr>reads := reads example_state @ [''./Content/Core/Thing.uasset''],
                        next_ident := 2\<rparr>) = cache example_state \<and>
   reachable example_loader example_state \<and>
   cache example_state ''/Game/Core/Thing'' = Some example_asset \<and>
   fully_loaded example_loader example_asset"
proof -
  have r: "reachable example_loader example_state"
    by (rule r_getitem [OF r_init ex_getitem])
  have c: "cache example_state ''/Game/Core/Thing'' = Some example_asset"
    by (simp add: example_state_def)
  from cache_only_full_loads [where L = example_loader and s = example_state
      and an = "''/Game/Core/Broken''" and doNotLink = False
      and e = "AssetLoadException ''no tables''"
      and s' = "example_state\<lparr>reads := reads example_state @ [''./Content/Core/Broken.uasset''],
                     next_ident := 2\<rparr>"
      and t = example_state and k = "''/Game/Core/Thing''" and a = example_asset]
    cache_only_full_loads [where L = example_loader and s = example_state
      and an = "''/Game/Core/Thing''"
      and r = "Inr \<lparr>ident = 1, assetname = ''/Game/Core/Thing'', name = ''Thing'',
           contents = [1, 2, 3], default_export = None, default_class = None\<rparr>"
      and s' = "example_state\<lparr>reads := reads example_state @ [''./Content/Core/Thing.uasset''],
                     next_ident := 2\<rparr>"]
    ex_load_broken ex_load_partial r c
  show ?thesis by simp
qed



subsection \<open>The container decoder: claim C2\<close>

lemma readUInt64_Inr:
  "readUInt64 f = Inr (v, f') \<Longrightarrow> mem f' = mem f \<and> offset f' = offset f + 8"
  by (auto simp: readUInt64_def readBytes_def split: if_splits)

lemma read_chunk_sizes_Inr:
  "read_chunk_sizes tot f cs found = (Inr (cs', found'), f') \<Longrightarrow>
     mem f' = mem f \<and> length cs \<le> length cs' \<and>
     offset f' = offset f + 16 * (length cs' - length cs) \<and>
     found' + sum_list (map snd cs) = found + sum_list (map snd cs')"
proof (induction tot f cs found rule: read_chunk_sizes.induct)
  case (1 sizeUnpacked f chunkSizes sizeFound)
  show ?case
  proof (cases "sizeFound < sizeUnpacked")
    case False
    with "1.prems" show ?thesis by (simp add: read_chunk_sizes.simps)
  next
    case True
    with "1.prems" obtain cc f1 cu f2 where
      r1: "readUInt64 f = Inr (cc, f1)" and r2: "readUInt64 f1 = Inr (cu, f2)"
      and rec: "read_chunk_sizes sizeUnpacked f2 (chunkSizes @ [(cc, cu)]) (sizeFound + cu)
                  = (Inr (cs', found'), f')"
      by (auto simp: read_chunk_sizes.simps [of sizeUnpacked f] split: sum.splits prod.splits)
    from "1.IH" [OF True r1 refl r2 refl rec] readUInt64_Inr [OF r1] readUInt64_Inr [OF r2]
    show ?thesis by auto
  qed
qed

lemma write_chunks_append:
  "write_chunks D nom n i (pre @ rest) f out =
     (case write_chunks D nom n i pre f out of
        (Inr u, f1, out1) \<Rightarrow> write_chunks D nom n (i + length pre) rest f1 out1
      | (Inl e, f1, out1) \<Rightarrow> (Inl e, f1, out1))"
proof (induction pre arbitrary: i f out)
  case Nil
  then show ?case by simp
next
  case (Cons p pre)
  obtain cc cu where p: "p = (cc, cu)" by (cases p)
  show ?case
  proof (cases "readBytes f (nat cc)")
    case (Inl e)
    then show ?thesis by (simp add: p)
  next
    case (Inr r)
    obtain data f1 where r: "r = (data, f1)" by (cases r)
    show ?thesis
    proof (cases "D data")
      case (Inl e)
      with Inr r show ?thesis by (simp add: p)
    next
      case u: (Inr u)
      have step: "i + 1 + length pre = i + length (p # pre)" by simp
      show ?thesis
        unfolding p append_Cons write_chunks.simps Inr r u sum.case prod.case
          Cons.IH [of "i + 1"] step [unfolded p]
        by (simp split: sum.splits prod.splits)
    qed
  qed
qed

lemma write_chunks_fail_at:
  assumes "write_chunks D nom (length pre + 1 + length post) 0 pre f [] = (Inr (), f1, out1)"
    and "readBytes f1 (nat cc) = Inr (data, f2)" and "D data = Inr u"
    and "int (length u) \<noteq> cu \<or> (int (length u) \<noteq> nom \<and> post \<noteq> [])"
  shows "write_chunks D nom (length pre + 1 + length post) 0 (pre @ (cc, cu) # post) f [] =
           (Inl (AssertionError (DecompressionError
              (if int (length u) \<noteq> cu
               then ''Decompression of downloaded mod chunk failed verification''
               else ''Chunk of downloaded mod is not the expected size''))), f2, out1)"
  using assms by (auto simp: write_chunks_append)

text \<open>The three checks of \<open>unpackModFile\<close>, for a container whose four header fields
  can be read. A token other than \<open>0x9e2a83c1\<close> fails the first assertion, and the
  destination is not touched. Descriptors whose uncompressed sizes do not sum to the total
  of the header fail the second, the stream standing right behind the descriptors read and
  the destination not touched. When the chunks before it have passed, a chunk that
  decompresses to a length other than the declared one, or other than the nominal one
  when it is not the last, fails the assertion that names the check; the destination then
  holds the chunks written before it.\<close>

lemma unpackModFile_checks:
  assumes "readUInt64 f = Inr (token, f1)" and "readUInt64 f1 = Inr (sizeUnpackedChunk, f2)"
    and "readUInt64 f2 = Inr (sizePacked, f3)" and "readUInt64 f3 = Inr (sizeUnpacked, f4)"
  shows
    "(token \<noteq> 0x9e2a83c1 \<longrightarrow>
        unpackModFile decompress f dst =
          (Inl (AssertionError (DecompressionError ''Invalid header in downloaded mod'')), f4, dst)) \<and>
     (token = 0x9e2a83c1 \<and>
      read_chunk_sizes sizeUnpacked f4 [] 0 = (Inr (chunkSizes, sizeFound), f5) \<and>
      sum_list (map snd chunkSizes) \<noteq> sizeUnpacked \<longrightarrow>
        unpackModFile decompress f dst =
          (Inl (AssertionError (DecompressionError ''Invalid chunk sizes in downloaded mod'')), f5, dst) \<and>
        offset f5 = offset f + 32 + 16 * length chunkSizes) \<and>
     (token = 0x9e2a83c1 \<and>
      read_chunk_sizes sizeUnpacked f4 [] 0 = (Inr (pre @ (cc, cu) # post, sizeUnpacked), g) \<and>
      write_chunks decompress sizeUnpackedChunk (length pre + 1 + length post) 0 pre g [] =
        (Inr (), g1, out1) \<and>
      readBytes g1 (nat cc) = Inr (chunkData, g2) \<and> decompress chunkData = Inr u \<and>
      (int (length u) \<noteq> cu \<or> (int (length u) \<noteq> sizeUnpackedChunk \<and> post \<noteq> [])) \<longrightarrow>
        unpackModFile decompress f dst =
          (Inl (AssertionError (DecompressionError
             (if int (length u) \<noteq> cu
              then ''Decompression of downloaded mod chunk failed verification''
              else ''Chunk of downloaded mod is not the expected size''))), g2, Some out1))"
proof (intro conjI impI)
  assume "token \<noteq> 0x9e2a83c1"
  with assms show "unpackModFile decompress f dst =
      (Inl (AssertionError (DecompressionError ''Invalid header in downloaded mod'')), f4, dst)"
    by (simp add: unpackModFile_def)
next
  assume h: "token = 0x9e2a83c1 \<and>
      read_chunk_sizes sizeUnpacked f4 [] 0 = (Inr (chunkSizes, sizeFound), f5) \<and>
      sum_list (map snd chunkSizes) \<noteq> sizeUnpacked"
  then have rc: "read_chunk_sizes sizeUnpacked f4 [] 0 = (Inr (chunkSizes, sizeFound), f5)"
    by simp
  from read_chunk_sizes_Inr [OF rc]
  have sf: "sizeFound = sum_list (map snd chunkSizes)"
    and off: "offset f5 = offset f4 + 16 * length chunkSizes" by simp_all
  from h sf assms rc show "unpackModFile decompress f dst =
      (Inl (AssertionError (DecompressionError ''Invalid chunk sizes in downloaded mod'')), f5, dst)"
    by (simp add: unpackModFile_def)
  from off assms show "offset f5 = offset f + 32 + 16 * length chunkSizes"
    by (auto dest!: readUInt64_Inr)
next
  assume h: "token = 0x9e2a83c1 \<and>
      read_chunk_sizes sizeUnpacked f4 [] 0 = (Inr (pre @ (cc, cu) # post, sizeUnpacked), g) \<and>
      write_chunks decompress sizeUnpackedChunk (length pre + 1 + length post) 0 pre g [] =
        (Inr (), g1, out1) \<and>
      readBytes g1 (nat cc) = Inr (chunkData, g2) \<and> decompress chunkData = Inr u \<and>
      (int (length u) \<noteq> cu \<or> (int (length u) \<noteq> sizeUnpackedChunk \<and> post \<noteq> []))"
  then have h1: "write_chunks decompress sizeUnpackedChunk (length pre + 1 + length post) 0 pre g [] =
        (Inr (), g1, out1)"
    and h2: "readBytes g1 (nat cc) = Inr (chunkData, g2)" and h3: "decompress chunkData = Inr u"
    and h4: "int (length u) \<noteq> cu \<or> (int (length u) \<noteq> sizeUnpackedChunk \<and> post \<noteq> [])"
    by simp_all
  have wc: "write_chunks decompress sizeUnpackedChunk (length pre + 1 + length post) 0
       (pre @ (cc, cu) # post) g [] =
         (Inl (AssertionError (DecompressionError
            (if int (length u) \<noteq> cu
             then ''Decompression of downloaded mod chunk failed verification''
             else ''Chunk of downloaded mod is not the expected size''))), g2, out1)"
    by (rule write_chunks_fail_at [OF h1 h2 h3 h4])
  have len: "length (pre @ (cc, cu) # post) = length pre + 1 + length post" by simp
  from h assms show "unpackModFile decompress f dst =
      (Inl (AssertionError (DecompressionError
         (if int (length u) \<noteq> cu
          then ''Decompression of downloaded mod chunk failed verification''
          else ''Chunk of downloaded mod is not the expected size''))), g2, Some out1)"
    unfolding unpackModFile_def by (simp only: sum.case prod.case len wc) simp
qed

lemma bad_magic_header: "readUInt64 (loadFileAsStream bad_magic) = Inr (0x9e2a83c2, \<lparr>mem = bad_magic, offset = 8\<rparr>)"
  "readUInt64 \<lparr>mem = bad_magic, offset = 8\<rparr> = Inr (2, \<lparr>mem = bad_magic, offset = 16\<rparr>)"
  "readUInt64 \<lparr>mem = bad_magic, offset = 16\<rparr> = Inr (5, \<lparr>mem = bad_magic, offset = 24\<rparr>)"
  "readUInt64 \<lparr>mem = bad_magic, offset = 24\<rparr> = Inr (3, \<lparr>mem = bad_magic, offset = 32\<rparr>)"
  by (simp_all add: readUInt64_def readBytes_def le_uint_def loadFileAsStream_def bad_magic_def)

lemma bad_sum_header: "readUInt64 (loadFileAsStream bad_sum) = Inr (0x9e2a83c1, \<lparr>mem = bad_sum, offset = 8\<rparr>)"
  "readUInt64 \<lparr>mem = bad_sum, offset = 8\<rparr> = Inr (2, \<lparr>mem = bad_sum, offset = 16\<rparr>)"
  "readUInt64 \<lparr>mem = bad_sum, offset = 16\<rparr> = Inr (6, \<lparr>mem = bad_sum, offset = 24\<rparr>)"
  "readUInt64 \<lparr>mem = bad_sum, offset = 24\<rparr> = Inr (3, \<lparr>mem = bad_sum, offset = 32\<rparr>)"
  by (simp_all add: readUInt64_def readBytes_def le_uint_def loadFileAsStream_def bad_sum_def)

lemma bad_sum_descriptors: "readUInt64 \<lparr>mem = bad_sum, offset = 32\<rparr> = Inr (3, \<lparr>mem = bad_sum, offset = 40\<rparr>)"
  "readUInt64 \<lparr>mem = bad_sum, offset = 40\<rparr> = Inr (2, \<lparr>mem = bad_sum, offset = 48\<rparr>)"
  "readUInt64 \<lparr>mem = bad_sum, offset = 48\<rparr> = Inr (3, \<lparr>mem = bad_sum, offset = 56\<rparr>)"
  "readUInt64 \<lparr>mem = bad_sum, offset = 56\<rparr> = Inr (2, \<lparr>mem = bad_sum, offset = 64\<rparr>)"
  by (simp_all add: readUInt64_def readBytes_def le_uint_def bad_sum_def)

lemma bad_sum_sizes: "read_chunk_sizes 3 \<lparr>mem = bad_sum, offset = 32\<rparr> [] 0 =
     (Inr ([(3, 2), (3, 2)], 4), \<lparr>mem = bad_sum, offset = 64\<rparr>)"
  by (simp add: read_chunk_sizes.simps bad_sum_descriptors)

lemma bad_chunk_header: "readUInt64 (loadFileAsStream bad_chunk) = Inr (0x9e2a83c1, \<lparr>mem = bad_chunk, offset = 8\<rparr>)"
  "readUInt64 \<lparr>mem = bad_chunk, offset = 8\<rparr> = Inr (2, \<lparr>mem = bad_chunk, offset = 16\<rparr>)"
  "readUInt64 \<lparr>mem = bad_chunk, offset = 16\<rparr> = Inr (6, \<lparr>mem = bad_chunk, offset = 24\<rparr>)"
  "readUInt64 \<lparr>mem = bad_chunk, offset = 24\<rparr> = Inr (3, \<lparr>mem = bad_chunk, offset = 32\<rparr>)"
  by (simp_all add: readUInt64_def readBytes_def le_uint_def loadFileAsStream_def bad_chunk_def)

lemma bad_chunk_descriptors: "readUInt64 \<lparr>mem = bad_chunk, offset = 32\<rparr> = Inr (3, \<lparr>mem = bad_chunk, offset = 40\<rparr>)"
  "readUInt64 \<lparr>mem = bad_chunk, offset = 40\<rparr> = Inr (2, \<lparr>mem = bad_chunk, offset = 48\<rparr>)"
  "readUInt64 \<lparr>mem = bad_chunk, offset = 48\<rparr> = Inr (3, \<lparr>mem = bad_chunk, offset = 56\<rparr>)"
  "readUInt64 \<lparr>mem = bad_chunk, offset = 56\<rparr> = Inr (1, \<lparr>mem = bad_chunk, offset = 64\<rparr>)"
  by (simp_all add: readUInt64_def readBytes_def le_uint_def bad_chunk_def)

lemma bad_chunk_sizes: "read_chunk_sizes 3 \<lparr>mem = bad_chunk, offset = 32\<rparr> [] 0 =
     (Inr ([(3, 2)] @ (3, 1) # [], 3), \<lparr>mem = bad_chunk, offset = 64\<rparr>)"
  by (simp add: read_chunk_sizes.simps bad_chunk_descriptors)

lemma bad_chunk_reads: "readBytes \<lparr>mem = bad_chunk, offset = 64\<rparr> 3 = Inr ([0, 1, 2], \<lparr>mem = bad_chunk, offset = 67\<rparr>)"
  "readBytes \<lparr>mem = bad_chunk, offset = 67\<rparr> 3 = Inr ([0, 3, 4], \<lparr>mem = bad_chunk, offset = 70\<rparr>)"
  by (simp_all add: readBytes_def bad_chunk_def)

lemma bad_chunk_first: "write_chunks stored_decompress 2 (length [(3 :: int, 2 :: int)] + 1 + length ([] :: (int \<times> int) list)) 0 [(3, 2)]
      \<lparr>mem = bad_chunk, offset = 64\<rparr> [] = (Inr (), \<lparr>mem = bad_chunk, offset = 67\<rparr>, [1, 2])"
  by (simp add: bad_chunk_reads stored_decompress_def)

lemma bad_chunk_second: "stored_decompress [0, 3, 4] = Inr [3, 4]"
  by (simp add: stored_decompress_def)

text \<open>\<open>unpackModFile\<close> raises \<open>DecompressionError\<close> on no input, unless
  \<open>zlib.decompress\<close> does.\<close>

lemma readUInt64_Inl: "readUInt64 f = Inl e \<Longrightarrow> e = StreamError"
  by (auto simp: readUInt64_def readBytes_def split: if_splits)

lemma read_chunk_sizes_Inl:
  "read_chunk_sizes tot f cs found = (Inl e, f') \<Longrightarrow> e = StreamError"
proof (induction tot f cs found rule: read_chunk_sizes.induct)
  case (1 sizeUnpacked f chunkSizes sizeFound)
  show ?case
  proof (cases "sizeFound < sizeUnpacked")
    case False
    with "1.prems" show ?thesis by (simp add: read_chunk_sizes.simps)
  next
    case True
    show ?thesis
    proof (cases "readUInt64 f")
      case (Inl e1)
      with "1.prems" True readUInt64_Inl [OF Inl] show ?thesis
        by (simp add: read_chunk_sizes.simps [of sizeUnpacked f])
    next
      case (Inr r1)
      obtain cc f1 where r1: "r1 = (cc, f1)" by (cases r1)
      show ?thesis
      proof (cases "readUInt64 f1")
        case (Inl e2)
        with "1.prems" True Inr r1 readUInt64_Inl [OF Inl] show ?thesis
          by (simp add: read_chunk_sizes.simps [of sizeUnpacked f])
      next
        case r2: (Inr r2)
        obtain cu f2 where r2': "r2 = (cu, f2)" by (cases r2)
        from "1.prems" True Inr r1 r2 r2'
        have "read_chunk_sizes sizeUnpacked f2 (chunkSizes @ [(cc, cu)]) (sizeFound + cu) = (Inl e, f')"
          by (simp add: read_chunk_sizes.simps [of sizeUnpacked f])
        from "1.IH" [OF True _ refl _ refl this] Inr r1 r2 r2' show ?thesis by simp
      qed
    qed
  qed
qed

lemma write_chunks_Inl:
  "write_chunks D nom n i cs f out = (Inl e, f', out') \<Longrightarrow>
     e = StreamError \<or> (\<exists>d. D d = Inl e) \<or> (\<exists>x. e = AssertionError x)"
proof (induction cs arbitrary: i f out)
  case Nil
  then show ?case by simp
next
  case (Cons p cs)
  obtain cc cu where p: "p = (cc, cu)" by (cases p)
  show ?case
  proof (cases "readBytes f (nat cc)")
    case (Inl e1)
    with Cons.prems show ?thesis
      by (auto simp: p readBytes_def split: if_splits)
  next
    case (Inr r)
    obtain chunkData f1 where r: "r = (chunkData, f1)" by (cases r)
    show ?thesis
    proof (cases "D chunkData")
      case (Inl e1)
      with Cons.prems Inr r show ?thesis by (auto simp: p)
    next
      case u: (Inr u)
      show ?thesis
      proof (cases "int (length u) \<noteq> cu \<or> \<not> (int (length u) = nom \<or> i + 1 = n)")
        case True
        with Cons.prems Inr r u show ?thesis by (auto simp: p split: if_splits)
      next
        case False
        with Cons.prems Inr r u
        have "write_chunks D nom n (i + 1) cs f1 (out @ u) = (Inl e, f', out')"
          by (simp add: p split: if_splits)
        then show ?thesis by (rule Cons.IH)
      qed
    qed
  qed
qed

lemma unpackModFile_never_DecompressionError:
  assumes "\<And>d. decompress d \<noteq> Inl (DecompressionError m)"
  shows "fst (unpackModFile decompress f dst) \<noteq> Inl (DecompressionError m)"
proof
  assume a: "fst (unpackModFile decompress f dst) = Inl (DecompressionError m)"
  then obtain f' d' where u: "unpackModFile decompress f dst = (Inl (DecompressionError m), f', d')"
    by (cases "unpackModFile decompress f dst") auto
  then show False
    using assms
    by (auto simp: unpackModFile_def split: sum.splits prod.splits if_splits
        dest!: readUInt64_Inl read_chunk_sizes_Inl write_chunks_Inl)
qed

text \<open>Claim C2. The claim says that a damaged container makes the decoder raise a
  corruption error and leaves no output. On each of the three damaged containers the decoder
  raises \<open>AssertionError\<close>: the \<open>DecompressionError\<close> that names the check is only
  the argument of the failed \<open>assert\<close>. On the third container the destination file has
  been opened and holds the first chunk when the second one fails.\<close>

theorem unpackModFile_raises_AssertionError:
  "unpackModFile stored_decompress (loadFileAsStream bad_magic) None =
     (Inl (AssertionError (DecompressionError ''Invalid header in downloaded mod'')), \<lparr>mem = bad_magic, offset = 32\<rparr>, None) \<and>
   unpackModFile stored_decompress (loadFileAsStream bad_sum) None =
     (Inl (AssertionError (DecompressionError ''Invalid chunk sizes in downloaded mod'')), \<lparr>mem = bad_sum, offset = 64\<rparr>, None) \<and>
   unpackModFile stored_decompress (loadFileAsStream bad_chunk) None =
     (Inl (AssertionError (DecompressionError ''Decompression of downloaded mod chunk failed verification'')),
      \<lparr>mem = bad_chunk, offset = 70\<rparr>, Some [1, 2])"
proof -
  have a: "unpackModFile stored_decompress (loadFileAsStream bad_magic) None =
     (Inl (AssertionError (DecompressionError ''Invalid header in downloaded mod'')), \<lparr>mem = bad_magic, offset = 32\<rparr>, None)"
    using unpackModFile_checks [OF bad_magic_header, where decompress = stored_decompress and dst = None]
    by simp
  have b: "unpackModFile stored_decompress (loadFileAsStream bad_sum) None =
     (Inl (AssertionError (DecompressionError ''Invalid chunk sizes in downloaded mod'')), \<lparr>mem = bad_sum, offset = 64\<rparr>, None)"
    using unpackModFile_checks [OF bad_sum_header, where decompress = stored_decompress and dst = None
        and chunkSizes = "[(3, 2), (3, 2)]" and sizeFound = 4 and ?f5.0 = "\<lparr>mem = bad_sum, offset = 64\<rparr>"]
      bad_sum_sizes
    by simp
  have c: "unpackModFile stored_decompress (loadFileAsStream bad_chunk) None =
     (Inl (AssertionError (DecompressionError ''Decompression of downloaded mod chunk failed verification'')),
      \<lparr>mem = bad_chunk, offset = 70\<rparr>, Some [1, 2])"
    using unpackModFile_checks [OF bad_chunk_header, where decompress = stored_decompress and dst = None
        and pre = "[(3, 2)]" and cc = 3 and cu = 1 and post = "[]"
        and g = "\<lparr>mem = bad_chunk, offset = 64\<rparr>" and ?g1.0 = "\<lparr>mem = bad_chunk, offset = 67\<rparr>"
        and ?out1.0 = "[1, 2]" and chunkData = "[0, 3, 4]" and ?g2.0 = "\<lparr>mem = bad_chunk, offset = 70\<rparr>"
        and u = "[3, 4]"]
      bad_chunk_sizes bad_chunk_first bad_chunk_reads(2) bad_chunk_second
    by simp
  from a b c show ?thesis by simp
qed

subsection \<open>The string reader: claim C7\<close>

lemma readUInt32_nonneg: "readUInt32 f = Inr (count, f1) \<Longrightarrow> 0 \<le> count"
  by (auto simp: readUInt32_def split: sum.splits)

lemma readUnrealString_zero:
  "readUInt32 f = Inr (0, f1) \<Longrightarrow> readUnrealString decode f = (Inr None, f1)"
  by (simp add: readUnrealString_def)

lemma readUnrealString_reads:
  assumes "readUInt32 f = Inr (count, f1)" and "count \<noteq> 0"
    and "readBytes f1 (nat count) = Inr (data, f2)" and "decode data = Inr s"
  shows "readUnrealString decode f = (Inr (Some (butlast s)), f2)"
  using assms readUInt32_nonneg [OF assms(1)] by (simp add: readUnrealString_def)

lemma readUnrealString_never_wide:
  "readUnrealString decode f = (Inl (ValueError m), f') \<Longrightarrow>
     \<exists>d. decode d = Inl (ValueError m)"
  by (auto simp: readUnrealString_def readUInt32_def readBytes_def
      split: sum.splits if_splits prod.splits)

lemma readUnrealString_at:
  assumes "length hdr = 4" and "le_uint hdr = n" and "n \<noteq> 0" and "length payload = n"
    and "decode payload = Inr s"
  shows "readUnrealString decode (loadFileAsStream (hdr @ payload)) =
           (Inr (Some (butlast s)), \<lparr>mem = hdr @ payload, offset = 4 + n\<rparr>)"
proof -
  let ?f = "loadFileAsStream (hdr @ payload)"
  have a: "readUInt32 ?f = Inr (int n, \<lparr>mem = hdr @ payload, offset = 4\<rparr>)"
    using assms(1,2) by (simp add: readUInt32_def readBytes_def loadFileAsStream_def)
  have b: "readBytes \<lparr>mem = hdr @ payload, offset = 4\<rparr> (nat (int n)) =
             Inr (payload, \<lparr>mem = hdr @ payload, offset = 4 + n\<rparr>)"
    using assms(1,4) by (simp add: readBytes_def)
  have nz: "int n \<noteq> 0" using assms(3) by simp
  show ?thesis
    by (rule readUnrealString_reads [where decode = decode and data = payload and s = s,
          OF a nz b assms(5)])
qed

lemma decode_ascii_replicate:
  "unat b < 128 \<Longrightarrow> decode_ascii (replicate n b) = Inr (replicate n (char_of (unat b)))"
  by (simp add: decode_ascii_def list_all_iff)

lemma butlast_replicate_Suc: "butlast (replicate (Suc n) x) = replicate n x"
  by (induction n) simp_all

text \<open>Claim C7. The length field \<open>0x80000000\<close> has its sign bit set, and the claim
  says that such a length is rejected before any byte of the string is read. The reader
  compares the unsigned value with zero, so it reads the 2147483648 bytes that follow,
  decodes them and returns the string without its last character.\<close>

theorem readUnrealString_sign_bit_length:
  "readUnrealString decode_ascii
     (loadFileAsStream ([0, 0, 0, 0x80] @ replicate 2147483648 0x41)) =
   (Inr (Some (replicate 2147483647 (CHR ''A''))),
    \<lparr>mem = [0, 0, 0, 0x80] @ replicate 2147483648 0x41, offset = 2147483652\<rparr>)"
proof -
  have c: "char_of (65 :: nat) = CHR ''A''" by code_simp
  have d: "decode_ascii (replicate 2147483648 0x41) = Inr (replicate 2147483648 (CHR ''A''))"
    using decode_ascii_replicate [of "0x41" 2147483648] by (simp add: c)
  have l: "le_uint [0, 0, 0, 0x80] = 2147483648" by (simp add: le_uint_def)
  show ?thesis
    using readUnrealString_at [where hdr = "[0, 0, 0, 0x80]" and n = 2147483648
        and payload = "replicate 2147483648 0x41" and decode = decode_ascii
        and s = "replicate 2147483648 (CHR ''A'')"] l d
    using butlast_replicate_Suc [of 2147483647 "CHR ''A''"] by simp
qed

subsection \<open>The key-value parser: claim C6\<close>

lemma parseAcf_nested:
  "parseAcf acf_nested =
     Inr (Dict [(''Root'', Dict [(''A'', Str ''1''), (''Child'', Dict [(''B'', Str ''2'')])])])"
  by code_simp

lemma parseAcf_underflow: "parseAcf ''}'' = Inl IndexError"
  by code_simp

lemma parse_line_close:
  "parse_line st ''}'' = Inr st' \<Longrightarrow>
     current_section st' = current_section st \<and> output_dict st' = output_dict st"
  by (auto simp: parse_line_def str_strip_def strip_with_def lstrip_with_def rstrip_with_def
      str_split_ws1_def isspace_def Let_def split: if_splits)

text \<open>Claim C6. The claim says that an entry that follows a closing brace belongs to the
  enclosing section. In the document \<open>acf_doc\<close> the entry \<open>A\<close> follows the brace
  that closes \<open>Child\<close>, and the parser adds it to \<open>Child\<close>, not to \<open>Root\<close>:
  the closing brace removes the name from \<open>sections\<close> and leaves
  \<open>current_section\<close> on the closed section.\<close>

theorem parseAcf_entry_after_close:
  "parseAcf acf_doc =
     Inr (Dict [(''Root'', Dict [(''Child'', Dict [(''B'', Str ''2''), (''A'', Str ''1'')])])])"
  by code_simp

end
